theory Spec2Isabelle
  imports Complex_Main
begin

section \<open>Data model of the WAF collector (waf\_sender.go)\<close>

text \<open>
  The collector polls a WAF appliance over HTTP, reads and writes one state file, reads
  the clock, and hands a text file to the external \<open>zabbix_sender\<close>. Everything outside the
  process is an explicit environment (\<open>env\<close>) answering each interaction, and an explicit
  \<open>world\<close> that is threaded through every operation and records what the process did.

  JSON values are kept as abstract syntax. A JSON number decodes to a Go \<open>float64\<close>, which
  is modelled by a real number (rounding is not modelled).
\<close>

datatype json =
    JNull
  | JBool bool
  | JNum real
  | JStr string
  | JArr "json list"
  | JObj "(string \<times> json) list"

text \<open>
  A decoded \<open>map[string]interface{}\<close>: the members of the JSON object in input order.
  Go's decoder lets a later duplicate key overwrite an earlier one, so a lookup \<open>m[key]\<close>
  returns the last member with that key.
\<close>

type_synonym gomap = "(string \<times> json) list"

definition jget :: "gomap \<Rightarrow> string \<Rightarrow> json option" where
  "jget m k = map_of (rev m) k"

text \<open>Site, TrafficData, ZabbixData, LastRunInfo: the structs of the source.\<close>

record Site =
  ID :: string
  Name :: string
  Enabled :: bool
  StructID :: string

record TrafficData =
  Timestamp :: int
  BytesInRateAvg :: real
  BytesInRateMax :: real
  BytesOutRateAvg :: real
  BytesOutRateMax :: real
  ConnCurAvg :: real
  ConnCurMax :: real
  ConnRateAvg :: real
  HTTPReqCntAvg :: real
  HTTPReqCntMax :: real
  HTTPReqRateAvg :: real

text \<open>
  \<open>ZabbixData.Value\<close> is an \<open>interface{}\<close>; the collector stores an \<open>int\<close> or \<open>int64\<close>,
  a \<open>float64\<close> or a \<open>string\<close> in it.
\<close>

datatype zvalue = VInt int | VFloat real | VStr string

record ZabbixData =
  Host :: string
  Key :: string
  Value :: zvalue
  Clock :: int

record LastRunInfo =
  LastRunTime :: string
  DataType :: string
  ZabbixHost :: string

text \<open>
  \<open>WAFCollector\<close> without the HTTP client. \<open>cachedSites\<close> and \<open>cachedDeviceID\<close> are the
  only fields that change after construction.
\<close>

record WAFCollector =
  wafHost :: string
  token :: string
  zabbixServer :: string
  zabbixHost :: string
  dataType :: string
  cachedSites :: "Site list"
  cachedDeviceID :: string
  lastRunFile :: string

subsection \<open>getFloatValue\<close>

text \<open>
  The type switch of \<open>getFloatValue\<close>: a \<open>float64\<close> is returned, the string \<open>"-"\<close>
  returns 0 inside the switch, and every other case leaves the switch and reaches the
  final \<open>return 0\<close>.
\<close>

definition getFloatValue :: "gomap \<Rightarrow> string \<Rightarrow> real" where
  "getFloatValue m key =
     (case jget m key of
        Some v \<Rightarrow>
          (case v of
             JNum val \<Rightarrow> val
           | JStr val \<Rightarrow> (if val = ''-'' then 0 else 0)
           | _ \<Rightarrow> 0)
      | None \<Rightarrow> 0)"

section \<open>Go library functions used by the collector\<close>

subsection \<open>Decimal digits\<close>

definition digit :: "nat \<Rightarrow> char" where
  "digit d = char_of (48 + d)"

definition digitVal :: "char \<Rightarrow> int" where
  "digitVal c = int (of_char c) - 48"

definition isDigitChar :: "char \<Rightarrow> bool" where
  "isDigitChar c = (48 \<le> (of_char c :: nat) \<and> (of_char c :: nat) \<le> 57)"

text \<open>\<open>isDigit(s, i)\<close> of package time: in range and a decimal digit.\<close>

definition isDigit :: "string \<Rightarrow> nat \<Rightarrow> bool" where
  "isDigit s i = (i < length s \<and> isDigitChar (s ! i))"

fun digitsOf :: "nat \<Rightarrow> string" where
  "digitsOf n = (if n < 10 then [digit n] else digitsOf (n div 10) @ [digit (n mod 10)])"

declare digitsOf.simps [simp del]

text \<open>The verb \<open>%d\<close> (and \<open>%v\<close> on an integer): an optional sign and the decimal digits.\<close>

definition fmt_d :: "int \<Rightarrow> string" where
  "fmt_d x = (if x < 0 then ''-'' @ digitsOf (nat (- x)) else digitsOf (nat x))"

text \<open>\<open>appendInt\<close> of package time: the decimal form, zero-padded to a width.\<close>

definition appendInt :: "int \<Rightarrow> nat \<Rightarrow> string" where
  "appendInt x width =
     (let ds = digitsOf (nat \<bar>x\<bar>)
      in (if x < 0 then ''-'' else []) @ replicate (width - length ds) (CHR ''0'') @ ds)"

text \<open>
  \<open>atoi\<close> of package time: an optional sign, then every byte must be a digit
  (\<open>leadingInt\<close> consumes the digits; anything left over is an error).
\<close>

fun leadingInt :: "int \<Rightarrow> string \<Rightarrow> int \<times> string" where
  "leadingInt acc [] = (acc, [])"
| "leadingInt acc (c # cs) =
     (if isDigitChar c then leadingInt (acc * 10 + digitVal c) cs else (acc, c # cs))"

definition atoi :: "string \<Rightarrow> int option" where
  "atoi s =
     (let neg = (s \<noteq> [] \<and> hd s = CHR ''-'');
          s1 = (if s \<noteq> [] \<and> (hd s = CHR ''-'' \<or> hd s = CHR ''+'') then tl s else s)
      in case leadingInt 0 s1 of
           (q, rem) \<Rightarrow>
             if s1 = [] \<or> rem \<noteq> [] then None else Some (if neg then - q else q))"

subsection \<open>strings.Contains and strings.ReplaceAll on a one-byte pattern\<close>

definition containsChar :: "string \<Rightarrow> char \<Rightarrow> bool" where
  "containsChar s c = (c \<in> set s)"

text \<open>
  \<open>strings.ReplaceAll(s, old, new)\<close> where \<open>old\<close> is one byte: a left-to-right pass
  that replaces every occurrence of the byte.
\<close>

fun replaceAllChar :: "string \<Rightarrow> char \<Rightarrow> string \<Rightarrow> string" where
  "replaceAllChar [] old new = []"
| "replaceAllChar (c # cs) old new =
     (if c = old then new @ replaceAllChar cs old new else c # replaceAllChar cs old new)"

subsection \<open>Package time: instants, dates and formatting\<close>

text \<open>
  A \<open>time.Time\<close> is an instant (nanoseconds since the Unix epoch, unbounded here) and a
  location. The offset of the zone \<open>Local\<close> at an instant is the environment's; it is the
  parameter \<open>lz\<close> (Unix seconds to seconds east of UTC) of the functions that need it.
\<close>

datatype Location = UTC | Local | FixedZone int

record Time =
  unixNano :: int
  loc :: Location

definition Unix :: "Time \<Rightarrow> int" where
  "Unix t = unixNano t div 1000000000"

definition UnixMilli :: "Time \<Rightarrow> int" where
  "UnixMilli t = unixNano t div 1000000"

definition Add :: "Time \<Rightarrow> int \<Rightarrow> Time" where
  "Add t d = t\<lparr>unixNano := unixNano t + d\<rparr>"

definition Before :: "Time \<Rightarrow> Time \<Rightarrow> bool" where
  "Before t u = (unixNano t < unixNano u)"

definition Hour :: int where "Hour = 3600 * 1000000000"
definition Minute :: int where "Minute = 60 * 1000000000"

definition zoneOffsetOf :: "(int \<Rightarrow> int) \<Rightarrow> Time \<Rightarrow> int" where
  "zoneOffsetOf lz t =
     (case loc t of UTC \<Rightarrow> 0 | Local \<Rightarrow> lz (Unix t) | FixedZone off \<Rightarrow> off)"

definition isLeap :: "int \<Rightarrow> bool" where
  "isLeap year = (year mod 4 = 0 \<and> (year mod 100 \<noteq> 0 \<or> year mod 400 = 0))"

definition daysBefore :: "int list" where
  "daysBefore = [0, 31, 59, 90, 120, 151, 181, 212, 243, 273, 304, 334, 365]"

definition daysIn :: "int \<Rightarrow> int \<Rightarrow> int" where
  "daysIn m year =
     (if m = 2 \<and> isLeap year then 29
      else daysBefore ! nat m - daysBefore ! nat (m - 1))"

text \<open>
  \<open>absDate\<close>: the civil date of a day number. Go counts days from an absolute zero year
  that is 1 modulo 400 and cuts off 400-, 100-, 4- and 1-year cycles; the day number here
  counts from 1 January of year 1 (also 1 modulo 400), with the same cycles. The first
  half gives the year and the day of the year (what \<open>absDate\<close> returns when \<open>full\<close> is
  false), the second half the month and the day.
\<close>

definition absYearDay :: "int \<Rightarrow> int \<times> int" where
  "absYearDay days =
     (let n400 = days div 146097;
          d1 = days - 146097 * n400;
          k100 = d1 div 36524;
          n100 = k100 - k100 div 4;
          d2 = d1 - 36524 * n100;
          n4 = d2 div 1461;
          d3 = d2 - 1461 * n4;
          k1 = d3 div 365;
          n1 = k1 - k1 div 4;
          yday = d3 - 365 * n1;
          year = 400 * n400 + 100 * n100 + 4 * n4 + n1 + 1
      in (year, yday))"

definition absDate :: "int \<Rightarrow> int \<times> int \<times> int" where
  "absDate days =
     (case absYearDay days of
        (year, yday) \<Rightarrow>
          if isLeap year \<and> yday = 31 + 29 - 1 then (year, 2, 29)
          else
            (let day = (if isLeap year \<and> yday > 31 + 29 - 1 then yday - 1 else yday);
                 m = day div 31;
                 end = daysBefore ! nat (m + 1)
             in if day \<ge> end then (year, m + 2, day - end + 1)
                else (year, m + 1, day - daysBefore ! nat m + 1)))"

text \<open>\<open>daysSinceEpoch\<close> and \<open>Date\<close>: the inverse direction, for validated fields.\<close>

definition daysSinceEpoch :: "int \<Rightarrow> int" where
  "daysSinceEpoch year =
     (let y = year - 1;
          n400 = y div 400; y1 = y - 400 * n400;
          n100 = y1 div 100; y2 = y1 - 100 * n100;
          n4 = y2 div 4; n1 = y2 - 4 * n4
      in 146097 * n400 + 36524 * n100 + 1461 * n4 + 365 * n1)"

definition unixToInternal :: int where
  "unixToInternal = 719162"

definition Date :: "int \<Rightarrow> int \<Rightarrow> int \<Rightarrow> int \<Rightarrow> int \<Rightarrow> int \<Rightarrow> int \<Rightarrow> int \<Rightarrow> int" where
  "Date year month day hour minute sec nsec offset =
     (let d = daysSinceEpoch year + daysBefore ! nat (month - 1)
              + (if isLeap year \<and> month \<ge> 3 then 1 else 0) + (day - 1)
      in (((d - unixToInternal) * 86400 + hour * 3600 + minute * 60 + sec) - offset)
           * 1000000000 + nsec)"

text \<open>The broken-down wall-clock time of a \<open>Time\<close> in its own location.\<close>

record civil =
  cYear :: int
  cMonth :: int
  cDay :: int
  cHour :: int
  cMin :: int
  cSec :: int
  cNsec :: int
  cOffset :: int

definition civilOf :: "(int \<Rightarrow> int) \<Rightarrow> Time \<Rightarrow> civil" where
  "civilOf lz t =
     (let off = zoneOffsetOf lz t;
          abs = Unix t + off;
          secs = abs mod 86400
      in case absDate (abs div 86400 + unixToInternal) of
           (y, m, d) \<Rightarrow>
             \<lparr>cYear = y, cMonth = m, cDay = d, cHour = secs div 3600,
              cMin = secs mod 3600 div 60, cSec = secs mod 60,
              cNsec = unixNano t mod 1000000000, cOffset = off\<rparr>)"

text \<open>
  A layout, cut into the chunks that \<open>nextStdChunk\<close> finds: literal text and the
  standard fields that the four layouts of the collector use.
\<close>

datatype chunk =
    Lit string
  | stdLongYear
  | stdZeroMonth
  | stdZeroDay
  | stdHour
  | stdZeroMinute
  | stdZeroSecond
  | stdFracSecond9 nat
  | stdISO8601ColonTZ

text \<open>\<open>time.RFC3339\<close>, that is \<open>2006-01-02T15:04:05Z07:00\<close>.\<close>

definition RFC3339 :: "chunk list" where
  "RFC3339 =
     [stdLongYear, Lit ''-'', stdZeroMonth, Lit ''-'', stdZeroDay, Lit ''T'',
      stdHour, Lit '':'', stdZeroMinute, Lit '':'', stdZeroSecond, stdISO8601ColonTZ]"

text \<open>\<open>2006-01-02T15:04:05.999999\<close>\<close>

definition layoutISOMicro :: "chunk list" where
  "layoutISOMicro =
     [stdLongYear, Lit ''-'', stdZeroMonth, Lit ''-'', stdZeroDay, Lit ''T'',
      stdHour, Lit '':'', stdZeroMinute, Lit '':'', stdZeroSecond, stdFracSecond9 6]"

text \<open>\<open>2006-01-02T15:04:05\<close>\<close>

definition layoutISO :: "chunk list" where
  "layoutISO =
     [stdLongYear, Lit ''-'', stdZeroMonth, Lit ''-'', stdZeroDay, Lit ''T'',
      stdHour, Lit '':'', stdZeroMinute, Lit '':'', stdZeroSecond]"

text \<open>\<open>2006-01-02 15:04:05\<close>\<close>

definition layoutPlain :: "chunk list" where
  "layoutPlain =
     [stdLongYear, Lit ''-'', stdZeroMonth, Lit ''-'', stdZeroDay, Lit '' '',
      stdHour, Lit '':'', stdZeroMinute, Lit '':'', stdZeroSecond]"

text \<open>Go's integer division truncates toward zero.\<close>

definition quot :: "int \<Rightarrow> int \<Rightarrow> int" where
  "quot a b = sgn a * sgn b * (\<bar>a\<bar> div \<bar>b\<bar>)"

definition trimZeros :: "string \<Rightarrow> string" where
  "trimZeros s = rev (dropWhile (\<lambda>c. c = CHR ''0'') (rev s))"

text \<open>
  \<open>appendNano\<close> for a \<open>.999\<close> field of \<open>n\<close> digits: the first \<open>n\<close> of nine digits
  without trailing zeros, and nothing at all when no digit is left.
\<close>

definition appendNano :: "int \<Rightarrow> nat \<Rightarrow> string" where
  "appendNano nanosec n =
     (if n = 0 \<or> nanosec = 0 then []
      else (let b = trimZeros (CHR ''.'' # take n (appendInt nanosec 9))
            in if b = ''.'' then [] else b))"

fun formatChunk :: "civil \<Rightarrow> chunk \<Rightarrow> string" where
  "formatChunk c (Lit p) = p"
| "formatChunk c stdLongYear = appendInt (cYear c) 4"
| "formatChunk c stdZeroMonth = appendInt (cMonth c) 2"
| "formatChunk c stdZeroDay = appendInt (cDay c) 2"
| "formatChunk c stdHour = appendInt (cHour c) 2"
| "formatChunk c stdZeroMinute = appendInt (cMin c) 2"
| "formatChunk c stdZeroSecond = appendInt (cSec c) 2"
| "formatChunk c (stdFracSecond9 n) = appendNano (cNsec c) n"
| "formatChunk c stdISO8601ColonTZ =
     (if cOffset c = 0 then ''Z''
      else (let zone = quot (cOffset c) 60
            in (if zone < 0 then ''-'' else ''+'')
               @ appendInt (\<bar>zone\<bar> div 60) 2 @ '':'' @ appendInt (\<bar>zone\<bar> mod 60) 2))"

definition formatCivil :: "chunk list \<Rightarrow> civil \<Rightarrow> string" where
  "formatCivil layout c = concat (map (formatChunk c) layout)"

text \<open>\<open>t.Format(layout)\<close>\<close>

definition Format :: "(int \<Rightarrow> int) \<Rightarrow> chunk list \<Rightarrow> Time \<Rightarrow> string" where
  "Format lz layout t = formatCivil layout (civilOf lz t)"

subsection \<open>Package time: parsing\<close>

text \<open>
  \<open>getnum\<close>: one or two digits; with \<open>fixed\<close> exactly two are required.
\<close>

definition getnum :: "string \<Rightarrow> bool \<Rightarrow> (int \<times> string) option" where
  "getnum s fixed =
     (if \<not> isDigit s 0 then None
      else if \<not> isDigit s 1 then
        (if fixed then None else Some (digitVal (s ! 0), drop 1 s))
      else Some (digitVal (s ! 0) * 10 + digitVal (s ! 1), drop 2 s))"

definition cutspace :: "string \<Rightarrow> string" where
  "cutspace s = dropWhile (\<lambda>c. c = CHR '' '') s"

text \<open>
  \<open>skip\<close>: the value must start with the literal prefix; a run of spaces in the prefix
  matches any run of spaces in the value.
\<close>

function skip :: "string \<Rightarrow> string \<Rightarrow> string option" where
  "skip v [] = Some v"
| "skip v (p # ps) =
     (if p = CHR '' '' then
        (if v \<noteq> [] \<and> hd v \<noteq> CHR '' '' then None
         else skip (cutspace v) (cutspace ps))
      else if v = [] \<or> hd v \<noteq> p then None
      else skip (tl v) ps)"
  by pat_completeness auto
termination
  by (relation "measure (\<lambda>(v, p). length p)")
     (auto simp: cutspace_def intro: le_imp_less_Suc length_dropWhile_le)

definition commaOrPeriod :: "char \<Rightarrow> bool" where
  "commaOrPeriod c = (c = CHR ''.'' \<or> c = CHR '','')"

text \<open>
  \<open>parseNanoseconds(value, nbytes)\<close>: a separator and \<open>nbytes - 1\<close> digits, of which at
  most nine are read, scaled to nanoseconds.
\<close>

definition parseNanoseconds :: "string \<Rightarrow> nat \<Rightarrow> int option" where
  "parseNanoseconds v nbytes =
     (if v = [] \<or> \<not> commaOrPeriod (hd v) then None
      else
        (let nb = (if nbytes > 10 then 10 else nbytes)
         in case atoi (take (nb - 1) (drop 1 v)) of
              None \<Rightarrow> None
            | Some ns \<Rightarrow> if ns < 0 then None else Some (ns * 10 ^ (10 - nb))))"

text \<open>
  The variables of \<open>parse\<close>. Month, day and zone offset start at \<open>-1\<close> (not set);
  \<open>pZ\<close> is set when the value names UTC by \<open>Z\<close>.
\<close>

record pfields =
  pYear :: int
  pMonth :: int
  pDay :: int
  pHour :: int
  pMin :: int
  pSec :: int
  pNsec :: int
  pZ :: bool
  pZoneOffset :: int

definition pinit :: pfields where
  "pinit = \<lparr>pYear = 0, pMonth = - 1, pDay = - 1, pHour = 0, pMin = 0, pSec = 0,
            pNsec = 0, pZ = False, pZoneOffset = - 1\<rparr>"

fun isFrac :: "chunk \<Rightarrow> bool" where
  "isFrac (stdFracSecond9 n) = True"
| "isFrac c = False"

fun isLit :: "chunk \<Rightarrow> bool" where
  "isLit (Lit p) = True"
| "isLit c = False"

text \<open>Is the next standard chunk of the rest of the layout a fractional second?\<close>

definition nextIsFrac :: "chunk list \<Rightarrow> bool" where
  "nextIsFrac cs = (case dropWhile isLit cs of [] \<Rightarrow> False | c # _ \<Rightarrow> isFrac c)"

text \<open>The number of bytes of a separator followed by its run of digits.\<close>

definition fracLen :: "string \<Rightarrow> nat" where
  "fracLen v = 1 + length (takeWhile isDigitChar (drop 1 v))"

text \<open>
  The loop of \<open>parse\<close>, one layout chunk at a time; \<open>None\<close> is any parse error. At the end
  of the layout the value must be used up.
\<close>

fun parseChunks :: "chunk list \<Rightarrow> string \<Rightarrow> pfields \<Rightarrow> pfields option" where
  "parseChunks [] v f = (if v \<noteq> [] then None else Some f)"
| "parseChunks (Lit p # cs) v f =
     (case skip v p of None \<Rightarrow> None | Some v1 \<Rightarrow> parseChunks cs v1 f)"
| "parseChunks (stdLongYear # cs) v f =
     (if length v < 4 \<or> \<not> isDigit v 0 then None
      else case atoi (take 4 v) of
             None \<Rightarrow> None
           | Some y \<Rightarrow> parseChunks cs (drop 4 v) (f\<lparr>pYear := y\<rparr>))"
| "parseChunks (stdZeroMonth # cs) v f =
     (case getnum v True of
        None \<Rightarrow> None
      | Some (m, v1) \<Rightarrow>
          if m \<le> 0 \<or> 12 < m then None else parseChunks cs v1 (f\<lparr>pMonth := m\<rparr>))"
| "parseChunks (stdZeroDay # cs) v f =
     (case getnum v True of
        None \<Rightarrow> None
      | Some (d, v1) \<Rightarrow> parseChunks cs v1 (f\<lparr>pDay := d\<rparr>))"
| "parseChunks (stdHour # cs) v f =
     (case getnum v False of
        None \<Rightarrow> None
      | Some (h, v1) \<Rightarrow>
          if h < 0 \<or> 24 \<le> h then None else parseChunks cs v1 (f\<lparr>pHour := h\<rparr>))"
| "parseChunks (stdZeroMinute # cs) v f =
     (case getnum v True of
        None \<Rightarrow> None
      | Some (m, v1) \<Rightarrow>
          if m < 0 \<or> 60 \<le> m then None else parseChunks cs v1 (f\<lparr>pMin := m\<rparr>))"
| "parseChunks (stdZeroSecond # cs) v f =
     (case getnum v True of
        None \<Rightarrow> None
      | Some (s, v1) \<Rightarrow>
          if s < 0 \<or> 60 \<le> s then None
          else if length v1 \<ge> 2 \<and> commaOrPeriod (v1 ! 0) \<and> isDigit v1 1
                  \<and> \<not> nextIsFrac cs then
            (case parseNanoseconds v1 (fracLen v1) of
               None \<Rightarrow> None
             | Some ns \<Rightarrow>
                 parseChunks cs (drop (fracLen v1) v1) (f\<lparr>pSec := s, pNsec := ns\<rparr>))
          else parseChunks cs v1 (f\<lparr>pSec := s\<rparr>))"
| "parseChunks (stdFracSecond9 n # cs) v f =
     (if length v < 2 \<or> \<not> commaOrPeriod (v ! 0) \<or> \<not> isDigit v 1 then parseChunks cs v f
      else case parseNanoseconds v (fracLen v) of
             None \<Rightarrow> None
           | Some ns \<Rightarrow> parseChunks cs (drop (fracLen v) v) (f\<lparr>pNsec := ns\<rparr>))"
| "parseChunks (stdISO8601ColonTZ # cs) v f =
     (if length v \<ge> 1 \<and> v ! 0 = CHR ''Z'' then parseChunks cs (drop 1 v) (f\<lparr>pZ := True\<rparr>)
      else if length v < 6 then None
      else if v ! 3 \<noteq> CHR '':'' then None
      else case getnum (take 2 (drop 1 v)) True of
             None \<Rightarrow> None
           | Some (hr, r1) \<Rightarrow>
               (case getnum (take 2 (drop 4 v)) True of
                  None \<Rightarrow> None
                | Some (mm, r2) \<Rightarrow>
                    if hr > 24 \<or> mm > 60 then None
                    else if v ! 0 = CHR ''+'' then
                      parseChunks cs (drop 6 v) (f\<lparr>pZoneOffset := (hr * 60 + mm) * 60\<rparr>)
                    else if v ! 0 = CHR ''-'' then
                      parseChunks cs (drop 6 v) (f\<lparr>pZoneOffset := - ((hr * 60 + mm) * 60)\<rparr>)
                    else None))"

text \<open>
  After the loop: a month or day that the layout did not set is 1, and the day must
  exist in its month.
\<close>

definition parseFields :: "chunk list \<Rightarrow> string \<Rightarrow> pfields option" where
  "parseFields layout v =
     (case parseChunks layout v pinit of
        None \<Rightarrow> None
      | Some f \<Rightarrow>
          (let month = (if pMonth f < 0 then 1 else pMonth f);
               day = (if pDay f < 0 then 1 else pDay f)
           in if day < 1 \<or> day > daysIn month (pYear f) then None
              else Some (f\<lparr>pMonth := month, pDay := day\<rparr>)))"

text \<open>
  The \<open>Time\<close> of the parsed fields, as \<open>time.Parse\<close> builds it: in UTC when the value has
  \<open>Z\<close> or no zone; with an offset, the instant is shifted by the offset and the location is
  \<open>Local\<close> when the local zone has that offset at that instant, a fixed zone otherwise.
\<close>

definition timeOf :: "(int \<Rightarrow> int) \<Rightarrow> pfields \<Rightarrow> Time" where
  "timeOf lz f =
     (if pZ f \<or> pZoneOffset f = - 1 then
        \<lparr>unixNano = Date (pYear f) (pMonth f) (pDay f) (pHour f) (pMin f) (pSec f) (pNsec f) 0,
         loc = UTC\<rparr>
      else
        (let ns = Date (pYear f) (pMonth f) (pDay f) (pHour f) (pMin f) (pSec f) (pNsec f)
                    (pZoneOffset f)
         in \<lparr>unixNano = ns,
             loc = (if lz (ns div 1000000000) = pZoneOffset f then Local
                    else FixedZone (pZoneOffset f))\<rparr>))"

text \<open>\<open>time.Parse(layout, value)\<close>; \<open>None\<close> is a non-nil error.\<close>

definition Parse :: "(int \<Rightarrow> int) \<Rightarrow> chunk list \<Rightarrow> string \<Rightarrow> Time option" where
  "Parse lz layout v = map_option (timeOf lz) (parseFields layout v)"

section \<open>The environment and the world\<close>

text \<open>
  The state file holds either a JSON document or bytes that are not JSON. The text layer of
  \<open>encoding/json\<close> is not modelled: a document is written and read as its abstract syntax.
\<close>

datatype filedata = Garbage | Doc json

text \<open>
  \<open>os.WriteFile\<close> either writes the file or fails; when it fails, what it leaves at the
  path (nothing, the old bytes, a truncated file) is the environment's choice.
\<close>

datatype write_outcome = Written | WriteError "filedata option"

text \<open>
  The ways \<open>sendToZabbix\<close> ends once it has data: the temporary file cannot be created or
  written, \<open>zabbix_sender\<close> is not on the path, it exits with an error, or it delivers.
\<close>

datatype sink_outcome =
  CreateTempFailed | TempWriteFailed | SenderNotFound | SenderFailed | Delivered

text \<open>
  The environment answers every interaction of the process. Answers are indexed by the
  number of interactions so far (\<open>tick\<close>), so that the appliance, the clock, the file system
  and the sender may answer differently each time.
  \<^item> \<open>env_http\<close>: the result of \<open>doRequest\<close>; \<open>None\<close> is any error (transport, HTTP status,
    malformed envelope, code other than SUCCESS), \<open>Some d\<close> a SUCCESS envelope whose
    \<open>data\<close> member is \<open>d\<close> (\<open>None\<close> when the member is missing).
  \<^item> \<open>env_clock\<close>: \<open>time.Now()\<close> in nanoseconds; \<open>env_local\<close>: the offset of the local zone.
  \<^item> \<open>env_fmt_float\<close> and \<open>env_marshal\<close>: the library's \<open>%v\<close> for a \<open>float64\<close> and
    \<open>json.Marshal\<close>, which are not modelled further.
\<close>

record env =
  env_http :: "nat \<Rightarrow> string \<Rightarrow> string \<Rightarrow> (string \<times> string) list \<Rightarrow> json option option"
  env_clock :: "nat \<Rightarrow> int"
  env_local :: "int \<Rightarrow> int"
  env_write :: "nat \<Rightarrow> write_outcome"
  env_sink :: "nat \<Rightarrow> string \<Rightarrow> string \<Rightarrow> sink_outcome"
  env_fmt_float :: "real \<Rightarrow> string"
  env_marshal :: "json \<Rightarrow> string"

text \<open>What the process did, in order.\<close>

datatype event =
    DoRequest string string "(string \<times> string) list"
  | FileRead string
  | FileWrite string filedata
  | SenderRun string string

record world =
  tick :: nat
  files :: "string \<rightharpoonup> filedata"
  trace :: "event list"

definition now :: "env \<Rightarrow> world \<Rightarrow> Time \<times> world" where
  "now e s = (\<lparr>unixNano = env_clock e (tick s), loc = Local\<rparr>, s\<lparr>tick := tick s + 1\<rparr>)"

definition doRequest ::
  "env \<Rightarrow> string \<Rightarrow> string \<Rightarrow> (string \<times> string) list \<Rightarrow> world \<Rightarrow> json option option \<times> world" where
  "doRequest e method path params s =
     (env_http e (tick s) method path params,
      s\<lparr>tick := tick s + 1, trace := trace s @ [DoRequest method path params]\<rparr>)"

subsection \<open>Decoding responses (json.Unmarshal into the structs of the source)\<close>

text \<open>
  A missing \<open>data\<close> member is an error (empty input); \<open>null\<close> leaves the target untouched;
  a member of the wrong JSON type is an error; a missing member leaves the zero value.
  Member names are matched exactly here (Go also accepts other letter cases).
\<close>

definition stringField :: "gomap \<Rightarrow> string \<Rightarrow> string option" where
  "stringField m k =
     (case jget m k of
        None \<Rightarrow> Some []
      | Some JNull \<Rightarrow> Some []
      | Some (JStr x) \<Rightarrow> Some x
      | Some _ \<Rightarrow> None)"

definition boolField :: "gomap \<Rightarrow> string \<Rightarrow> bool option" where
  "boolField m k =
     (case jget m k of
        None \<Rightarrow> Some False
      | Some JNull \<Rightarrow> Some False
      | Some (JBool b) \<Rightarrow> Some b
      | Some _ \<Rightarrow> None)"

text \<open>\<open>struct { ID string `json:"id"` }\<close> and \<open>struct { Serial string `json:"serial"` }\<close>\<close>

definition decodeStringStruct :: "string \<Rightarrow> json option \<Rightarrow> string option" where
  "decodeStringStruct k d =
     (case d of
        Some JNull \<Rightarrow> Some []
      | Some (JObj m) \<Rightarrow> stringField m k
      | _ \<Rightarrow> None)"

definition decodeSite :: "json \<Rightarrow> Site option" where
  "decodeSite j =
     (case j of
        JNull \<Rightarrow> Some \<lparr>ID = [], Name = [], Enabled = False, StructID = []\<rparr>
      | JObj m \<Rightarrow>
          (case (stringField m ''_pk'', stringField m ''name'', boolField m ''enable'',
                 stringField m ''struct_pk'') of
             (Some pk, Some nm, Some en, Some spk) \<Rightarrow>
               Some \<lparr>ID = pk, Name = nm, Enabled = en, StructID = spk\<rparr>
           | _ \<Rightarrow> None)
      | _ \<Rightarrow> None)"

fun decodeAll :: "('a \<Rightarrow> 'b option) \<Rightarrow> 'a list \<Rightarrow> 'b list option" where
  "decodeAll f [] = Some []"
| "decodeAll f (x # xs) =
     (case f x of
        None \<Rightarrow> None
      | Some y \<Rightarrow> (case decodeAll f xs of None \<Rightarrow> None | Some ys \<Rightarrow> Some (y # ys)))"

definition decodeResult :: "(json \<Rightarrow> 'b option) \<Rightarrow> json option \<Rightarrow> 'b list option" where
  "decodeResult f d =
     (case d of
        Some JNull \<Rightarrow> Some []
      | Some (JObj m) \<Rightarrow>
          (case jget m ''result'' of
             None \<Rightarrow> Some []
           | Some JNull \<Rightarrow> Some []
           | Some (JArr xs) \<Rightarrow> decodeAll f xs
           | Some _ \<Rightarrow> None)
      | _ \<Rightarrow> None)"

text \<open>An element of \<open>[]map[string]interface{}\<close>: an object, or \<open>null\<close> (a nil map).\<close>

definition decodeRecord :: "json \<Rightarrow> gomap option" where
  "decodeRecord j = (case j of JNull \<Rightarrow> Some [] | JObj m \<Rightarrow> Some m | _ \<Rightarrow> None)"

text \<open>\<open>[]interface{}\<close>, the topology tree.\<close>

definition decodeTree :: "json option \<Rightarrow> json list option" where
  "decodeTree d =
     (case d of Some JNull \<Rightarrow> Some [] | Some (JArr xs) \<Rightarrow> Some xs | _ \<Rightarrow> None)"

definition decodeLastRunInfo :: "filedata \<Rightarrow> LastRunInfo option" where
  "decodeLastRunInfo fd =
     (case fd of
        Garbage \<Rightarrow> None
      | Doc JNull \<Rightarrow> Some \<lparr>LastRunTime = [], DataType = [], ZabbixHost = []\<rparr>
      | Doc (JObj m) \<Rightarrow>
          (case (stringField m ''last_run_time'', stringField m ''data_type'',
                 stringField m ''zabbix_host'') of
             (Some t, Some dt, Some zh) \<Rightarrow>
               Some \<lparr>LastRunTime = t, DataType = dt, ZabbixHost = zh\<rparr>
           | _ \<Rightarrow> None)
      | Doc _ \<Rightarrow> None)"

definition marshalLastRunInfo :: "LastRunInfo \<Rightarrow> filedata" where
  "marshalLastRunInfo info =
     Doc (JObj [(''last_run_time'', JStr (LastRunTime info)),
                (''data_type'', JStr (DataType info)),
                (''zabbix_host'', JStr (ZabbixHost info))])"

section \<open>The collector\<close>

subsection \<open>NewWAFCollector\<close>

definition trimRightChar :: "string \<Rightarrow> char \<Rightarrow> string" where
  "trimRightChar s c = rev (dropWhile (\<lambda>x. x = c) (rev s))"

definition NewWAFCollector :: "string \<Rightarrow> string \<Rightarrow> string \<Rightarrow> string \<Rightarrow> string \<Rightarrow> WAFCollector" where
  "NewWAFCollector wh tok zs zh dt =
     (let safeHost = replaceAllChar zh (CHR ''/'') ''_''
      in \<lparr>wafHost = trimRightChar wh (CHR ''/''), token = tok, zabbixServer = zs,
          zabbixHost = zh, dataType = dt, cachedSites = [], cachedDeviceID = [],
          lastRunFile = ''/tmp/waf_sender_last_run_'' @ safeHost @ ''.json''\<rparr>)"

subsection \<open>login, getDeviceID, getDeviceSerial, getSites\<close>

definition login :: "env \<Rightarrow> WAFCollector \<Rightarrow> world \<Rightarrow> bool \<times> world" where
  "login e w s =
     (case doRequest e ''GET'' ''/api/v1/device/name/'' [] s of
        (None, s1) \<Rightarrow> (False, s1)
      | (Some d, s1) \<Rightarrow> (True, s1))"

definition tsParam :: "Time \<Rightarrow> string \<times> string" where
  "tsParam t = (''_ts'', fmt_d (UnixMilli t))"

definition getDeviceID :: "env \<Rightarrow> WAFCollector \<Rightarrow> world \<Rightarrow> string \<times> WAFCollector \<times> world" where
  "getDeviceID e w s =
     (if cachedDeviceID w \<noteq> [] then (cachedDeviceID w, w, s)
      else
        (case now e s of
           (t, s1) \<Rightarrow>
             (case doRequest e ''GET'' ''/api/v1/device/name/'' [tsParam t] s1 of
                (None, s2) \<Rightarrow> ([], w, s2)
              | (Some d, s2) \<Rightarrow>
                  (case decodeStringStruct ''id'' d of
                     None \<Rightarrow> ([], w, s2)
                   | Some i \<Rightarrow> (i, w\<lparr>cachedDeviceID := i\<rparr>, s2)))))"

definition getDeviceSerial :: "env \<Rightarrow> WAFCollector \<Rightarrow> world \<Rightarrow> string \<times> world" where
  "getDeviceSerial e w s =
     (case doRequest e ''GET'' ''/api/v1/device/info/'' [] s of
        (None, s1) \<Rightarrow> ([], s1)
      | (Some d, s1) \<Rightarrow>
          (case decodeStringStruct ''serial'' d of None \<Rightarrow> ([], s1) | Some x \<Rightarrow> (x, s1)))"

text \<open>\<open>getSites\<close> returns nil on an error; nil and the empty list are not told apart.\<close>

definition getSites :: "env \<Rightarrow> WAFCollector \<Rightarrow> world \<Rightarrow> Site list \<times> WAFCollector \<times> world" where
  "getSites e w s =
     (case now e s of
        (t, s1) \<Rightarrow>
          (case doRequest e ''GET'' ''/api/v1/website/site/''
                  [(''page'', ''1''), (''per_page'', ''1000''), tsParam t] s1 of
             (None, s2) \<Rightarrow> ([], w, s2)
           | (Some d, s2) \<Rightarrow>
               (case decodeResult decodeSite d of
                  None \<Rightarrow> ([], w, s2)
                | Some sites \<Rightarrow> (sites, w\<lparr>cachedSites := sites\<rparr>, s2))))"

subsection \<open>getLastRunTime and saveLastRunTime\<close>

text \<open>The four layouts in the order of the source; the first that parses wins.\<close>

definition parseLastRunTime :: "(int \<Rightarrow> int) \<Rightarrow> string \<Rightarrow> Time option" where
  "parseLastRunTime lz v =
     (case Parse lz RFC3339 v of
        Some t \<Rightarrow> Some t
      | None \<Rightarrow>
          (case Parse lz layoutISOMicro v of
             Some t \<Rightarrow> Some t
           | None \<Rightarrow>
               (case Parse lz layoutISO v of
                  Some t \<Rightarrow> Some t
                | None \<Rightarrow> Parse lz layoutPlain v)))"

definition getLastRunTime :: "env \<Rightarrow> WAFCollector \<Rightarrow> world \<Rightarrow> Time option \<times> world" where
  "getLastRunTime e w s =
     (let s1 = s\<lparr>trace := trace s @ [FileRead (lastRunFile w)]\<rparr>
      in case files s (lastRunFile w) of
           None \<Rightarrow> (None, s1)
         | Some fd \<Rightarrow>
             (case decodeLastRunInfo fd of
                None \<Rightarrow> (None, s1)
              | Some info \<Rightarrow> (parseLastRunTime (env_local e) (LastRunTime info), s1)))"

definition lastRunInfoOf :: "env \<Rightarrow> WAFCollector \<Rightarrow> Time \<Rightarrow> LastRunInfo" where
  "lastRunInfoOf e w runTime =
     \<lparr>LastRunTime = Format (env_local e) RFC3339 runTime, DataType = dataType w,
      ZabbixHost = zabbixHost w\<rparr>"

definition saveLastRunTime :: "env \<Rightarrow> WAFCollector \<Rightarrow> Time \<Rightarrow> world \<Rightarrow> world" where
  "saveLastRunTime e w runTime s =
     (let data = marshalLastRunInfo (lastRunInfoOf e w runTime);
          s1 = s\<lparr>tick := tick s + 1, trace := trace s @ [FileWrite (lastRunFile w) data]\<rparr>
      in case env_write e (tick s) of
           Written \<Rightarrow> s1\<lparr>files := (files s)(lastRunFile w \<mapsto> data)\<rparr>
         | WriteError residue \<Rightarrow> s1\<lparr>files := (files s)(lastRunFile w := residue)\<rparr>)"

subsection \<open>tryGetData and findWorkingDeviceID\<close>

text \<open>
  A record is valid when some member other than \<open>timestamp\<close> is not the string \<open>"-"\<close>.
  The loop ranges over the map, that is over the keys with their last values.
\<close>

definition validRecord :: "gomap \<Rightarrow> bool" where
  "validRecord m =
     list_ex (\<lambda>k. k \<noteq> ''timestamp'' \<and> jget m k \<noteq> Some (JStr ''-'')) (map fst m)"

definition trafficPath :: string where
  "trafficPath = ''/api/v1/logs/traffic/''"

definition tryGetData :: "env \<Rightarrow> WAFCollector \<Rightarrow> string \<Rightarrow> string \<Rightarrow> world \<Rightarrow> bool \<times> world" where
  "tryGetData e w appID deviceID s =
     (case now e s of
        (t, s1) \<Rightarrow>
          (case doRequest e ''GET'' trafficPath
                  [(''type'', ''mins''), (''app_id'', appID), (''device_id'', deviceID),
                   tsParam t] s1 of
             (None, s2) \<Rightarrow> (False, s2)
           | (Some d, s2) \<Rightarrow>
               (case decodeResult decodeRecord d of
                  None \<Rightarrow> (False, s2)
                | Some records \<Rightarrow> (list_ex validRecord records, s2))))"

text \<open>
  Method 1 of the source: the first cached site with this id whose \<open>struct_pk\<close> is usable
  is probed; the loop stops there (\<open>break\<close>) whether the probe succeeds or not.
\<close>

definition tryStructID ::
  "env \<Rightarrow> WAFCollector \<Rightarrow> string \<Rightarrow> string \<Rightarrow> world \<Rightarrow> string option \<times> world" where
  "tryStructID e w appID originalDeviceID s =
     (case find (\<lambda>site. ID site = appID \<and> StructID site \<noteq> []
                        \<and> StructID site \<noteq> originalDeviceID \<and> StructID site \<noteq> ''0'')
             (cachedSites w) of
        None \<Rightarrow> (None, s)
      | Some site \<Rightarrow>
          (case tryGetData e w appID (StructID site) s of
             (True, s1) \<Rightarrow> (Some (StructID site), s1)
           | (False, s1) \<Rightarrow> (None, s1)))"

text \<open>Method 2: the primary device id, when it differs from the candidate.\<close>

definition tryRealDeviceID ::
  "env \<Rightarrow> WAFCollector \<Rightarrow> string \<Rightarrow> string \<Rightarrow> world \<Rightarrow> string option \<times> WAFCollector \<times> world" where
  "tryRealDeviceID e w appID originalDeviceID s =
     (case getDeviceID e w s of
        (realDeviceID, w1, s1) \<Rightarrow>
          if realDeviceID \<noteq> [] \<and> realDeviceID \<noteq> originalDeviceID then
            (case tryGetData e w1 appID realDeviceID s1 of
               (True, s2) \<Rightarrow> (Some realDeviceID, w1, s2)
             | (False, s2) \<Rightarrow> (None, w1, s2))
          else (None, w1, s1))"

text \<open>
  Method 3: the cluster ids of a topology tree, three levels down (item, area, cluster),
  in the order of the nested loops, and the probes in that order until one succeeds.
\<close>

definition children :: "json \<Rightarrow> json list" where
  "children item =
     (case item of
        JObj m \<Rightarrow> (case jget m ''children'' of Some (JArr xs) \<Rightarrow> xs | _ \<Rightarrow> [])
      | _ \<Rightarrow> [])"

definition clusterPK :: "json \<Rightarrow> string list" where
  "clusterPK cluster =
     (case cluster of
        JObj m \<Rightarrow> (case jget m ''_pk'' of Some (JStr x) \<Rightarrow> [x] | _ \<Rightarrow> [])
      | _ \<Rightarrow> [])"

definition clusterIDs :: "json list \<Rightarrow> string \<Rightarrow> string list" where
  "clusterIDs treeData originalDeviceID =
     filter (\<lambda>clusterID. clusterID \<noteq> [] \<and> clusterID \<noteq> ''0'' \<and> clusterID \<noteq> ''1''
                          \<and> clusterID \<noteq> originalDeviceID)
       (concat (map clusterPK (concat (map children (concat (map children treeData))))))"

fun probeIDs ::
  "env \<Rightarrow> WAFCollector \<Rightarrow> string \<Rightarrow> string list \<Rightarrow> world \<Rightarrow> string option \<times> world" where
  "probeIDs e w appID [] s = (None, s)"
| "probeIDs e w appID (i # ids) s =
     (case tryGetData e w appID i s of
        (True, s1) \<Rightarrow> (Some i, s1)
      | (False, s1) \<Rightarrow> probeIDs e w appID ids s1)"

definition siteTypes :: "string list" where
  "siteTypes = [''reverse'', ''transparent'', ''traction'', ''sniffer'', ''bridge'']"

fun tryTopology ::
  "env \<Rightarrow> WAFCollector \<Rightarrow> string \<Rightarrow> string \<Rightarrow> string list \<Rightarrow> world \<Rightarrow> string option \<times> world" where
  "tryTopology e w appID originalDeviceID [] s = (None, s)"
| "tryTopology e w appID originalDeviceID (siteType # rest) s =
     (case doRequest e ''GET'' (''/api/v1/website/tree/'' @ siteType @ ''/'') [] s of
        (None, s1) \<Rightarrow> tryTopology e w appID originalDeviceID rest s1
      | (Some d, s1) \<Rightarrow>
          (case decodeTree d of
             None \<Rightarrow> tryTopology e w appID originalDeviceID rest s1
           | Some treeData \<Rightarrow>
               (case probeIDs e w appID (clusterIDs treeData originalDeviceID) s1 of
                  (Some i, s2) \<Rightarrow> (Some i, s2)
                | (None, s2) \<Rightarrow> tryTopology e w appID originalDeviceID rest s2)))"

text \<open>Method 4: the device serial number.\<close>

definition trySerial ::
  "env \<Rightarrow> WAFCollector \<Rightarrow> string \<Rightarrow> string \<Rightarrow> world \<Rightarrow> string option \<times> world" where
  "trySerial e w appID originalDeviceID s =
     (case getDeviceSerial e w s of
        (deviceSerial, s1) \<Rightarrow>
          if deviceSerial \<noteq> [] \<and> deviceSerial \<noteq> originalDeviceID then
            (case tryGetData e w appID deviceSerial s1 of
               (True, s2) \<Rightarrow> (Some deviceSerial, s2)
             | (False, s2) \<Rightarrow> (None, s2))
          else (None, s1))"

text \<open>
  \<open>findWorkingDeviceID\<close> from the probe of the original id onwards (everything after the
  first \<open>if\<close> of the source).
\<close>

definition probeChain ::
  "env \<Rightarrow> WAFCollector \<Rightarrow> string \<Rightarrow> string \<Rightarrow> world \<Rightarrow> string \<times> WAFCollector \<times> world" where
  "probeChain e w appID originalDeviceID s =
     (case tryGetData e w appID originalDeviceID s of
        (True, s1) \<Rightarrow> (originalDeviceID, w, s1)
      | (False, s1) \<Rightarrow>
          (case tryStructID e w appID originalDeviceID s1 of
             (Some i, s2) \<Rightarrow> (i, w, s2)
           | (None, s2) \<Rightarrow>
               (case tryRealDeviceID e w appID originalDeviceID s2 of
                  (Some i, w3, s3) \<Rightarrow> (i, w3, s3)
                | (None, w3, s3) \<Rightarrow>
                    (case tryTopology e w3 appID originalDeviceID siteTypes s3 of
                       (Some i, s4) \<Rightarrow> (i, w3, s4)
                     | (None, s4) \<Rightarrow>
                         (case trySerial e w3 appID originalDeviceID s4 of
                            (Some i, s5) \<Rightarrow> (i, w3, s5)
                          | (None, s5) \<Rightarrow> (originalDeviceID, w3, s5))))))"

definition findWorkingDeviceID ::
  "env \<Rightarrow> WAFCollector \<Rightarrow> string \<Rightarrow> string \<Rightarrow> world \<Rightarrow> string \<times> WAFCollector \<times> world" where
  "findWorkingDeviceID e w appID originalDeviceID s =
     (if originalDeviceID = [] \<or> originalDeviceID = ''0'' \<or> originalDeviceID = ''auto'' then
        (case getDeviceID e w s of
           (realDeviceID, w1, s1) \<Rightarrow>
             if realDeviceID \<noteq> [] then (realDeviceID, w1, s1)
             else probeChain e w1 appID originalDeviceID s1)
      else probeChain e w appID originalDeviceID s)"

subsection \<open>getTrafficData\<close>

definition durationOf :: "(string \<times> int) list \<Rightarrow> string \<Rightarrow> int" where
  "durationOf m k = (case map_of m k of None \<Rightarrow> 0 | Some d \<Rightarrow> d)"

definition maxRanges :: "(string \<times> int) list" where
  "maxRanges = [(''mins'', 24 * Hour), (''hours'', 7 * 24 * Hour), (''days'', 30 * 24 * Hour)]"

definition timeWindows :: "(string \<times> int) list" where
  "timeWindows = [(''mins'', 5 * Minute), (''hours'', 2 * Hour), (''days'', 2 * 24 * Hour)]"

text \<open>The start of the query window, from the granularity, the stored time and \<open>endTime\<close>.\<close>

definition windowStart :: "string \<Rightarrow> Time option \<Rightarrow> Time \<Rightarrow> Time" where
  "windowStart dt lastRunTime endTime =
     (case lastRunTime of
        Some lrt \<Rightarrow>
          (let maxRange0 = durationOf maxRanges dt;
               maxRange = (if maxRange0 = 0 then 24 * Hour else maxRange0);
               minStartTime = Add endTime (- maxRange)
           in if Before lrt minStartTime then minStartTime else lrt)
      | None \<Rightarrow>
          (let timeWindow0 = durationOf timeWindows dt;
               timeWindow = (if timeWindow0 = 0 then 5 * Minute else timeWindow0)
           in Add endTime (- timeWindow)))"

definition zeroTrafficData :: TrafficData where
  "zeroTrafficData =
     \<lparr>Timestamp = 0, BytesInRateAvg = 0, BytesInRateMax = 0, BytesOutRateAvg = 0,
      BytesOutRateMax = 0, ConnCurAvg = 0, ConnCurMax = 0, ConnRateAvg = 0,
      HTTPReqCntAvg = 0, HTTPReqCntMax = 0, HTTPReqRateAvg = 0\<rparr>"

text \<open>\<open>[]TrafficData{{Timestamp: time.Now().Unix()}}\<close>\<close>

definition zeroPointNow :: "env \<Rightarrow> world \<Rightarrow> TrafficData list \<times> world" where
  "zeroPointNow e s =
     (case now e s of (t, s1) \<Rightarrow> ([zeroTrafficData\<lparr>Timestamp := Unix t\<rparr>], s1))"

text \<open>
  The first part of \<open>getTrafficData\<close>: resolve the device id, read the clock and the state
  file, compute the window, and issue the traffic query. It returns what \<open>doRequest\<close>
  returned together with the window.
\<close>

definition trafficQuery ::
  "env \<Rightarrow> WAFCollector \<Rightarrow> string \<Rightarrow> string \<Rightarrow> world
     \<Rightarrow> (json option option \<times> Time \<times> Time) \<times> WAFCollector \<times> world" where
  "trafficQuery e w appID deviceID s =
     (case findWorkingDeviceID e w appID deviceID s of
        (workingDeviceID, w1, s1) \<Rightarrow>
          (case now e s1 of
             (endTime, s2) \<Rightarrow>
               (case getLastRunTime e w1 s2 of
                  (lastRunTime, s3) \<Rightarrow>
                    (let startTime = windowStart (dataType w1) lastRunTime endTime
                     in case now e s3 of
                          (t, s4) \<Rightarrow>
                            (case doRequest e ''GET'' trafficPath
                                    [(''type'', dataType w1), (''app_id'', appID),
                                     (''device_id'', workingDeviceID),
                                     (''timestamp__ge'',
                                      Format (env_local e) layoutPlain startTime),
                                     (''timestamp__lt'',
                                      Format (env_local e) layoutPlain endTime),
                                     tsParam t] s4 of
                               (resp, s5) \<Rightarrow> ((resp, startTime, endTime), w1, s5))))))"

text \<open>The timestamp of a record: its own when it parses, the clock otherwise.\<close>

definition recordTimestamp :: "env \<Rightarrow> gomap \<Rightarrow> world \<Rightarrow> int \<times> world" where
  "recordTimestamp e r s =
     (case jget r ''timestamp'' of
        Some (JStr tsStr) \<Rightarrow>
          (if tsStr \<noteq> [] then
             (case Parse (env_local e) layoutPlain tsStr of
                Some t \<Rightarrow> (Unix t, s)
              | None \<Rightarrow> (case now e s of (t, s1) \<Rightarrow> (Unix t, s1)))
           else (case now e s of (t, s1) \<Rightarrow> (Unix t, s1)))
      | _ \<Rightarrow> (case now e s of (t, s1) \<Rightarrow> (Unix t, s1)))"

definition dataPointOf :: "gomap \<Rightarrow> int \<Rightarrow> TrafficData" where
  "dataPointOf r ts =
     \<lparr>Timestamp = ts,
      BytesInRateAvg = getFloatValue r ''bytes_in_rate_avg'',
      BytesInRateMax = getFloatValue r ''bytes_in_rate_max'',
      BytesOutRateAvg = getFloatValue r ''bytes_out_rate_avg'',
      BytesOutRateMax = getFloatValue r ''bytes_out_rate_max'',
      ConnCurAvg = getFloatValue r ''conn_cur_avg'',
      ConnCurMax = getFloatValue r ''conn_cur_max'',
      ConnRateAvg = getFloatValue r ''conn_rate_avg'',
      HTTPReqCntAvg = getFloatValue r ''http_req_cnt_avg'',
      HTTPReqCntMax = getFloatValue r ''http_req_cnt_max'',
      HTTPReqRateAvg = getFloatValue r ''http_req_rate_avg''\<rparr>"

fun buildDataPoints :: "env \<Rightarrow> gomap list \<Rightarrow> world \<Rightarrow> TrafficData list \<times> world" where
  "buildDataPoints e [] s = ([], s)"
| "buildDataPoints e (r # rs) s =
     (if \<not> validRecord r then buildDataPoints e rs s
      else
        (case recordTimestamp e r s of
           (ts, s1) \<Rightarrow>
             (case buildDataPoints e rs s1 of
                (ps, s2) \<Rightarrow> (dataPointOf r ts # ps, s2))))"

text \<open>
  The second part of \<open>getTrafficData\<close>: from the response to the samples. Two or more
  samples are sorted by timestamp (\<open>sort.Slice\<close>; the order of equal timestamps is not
  specified by Go, the model keeps their order).
\<close>

definition trafficDataOf :: "env \<Rightarrow> json option option \<Rightarrow> world \<Rightarrow> TrafficData list \<times> world" where
  "trafficDataOf e resp s =
     (case resp of
        None \<Rightarrow> zeroPointNow e s
      | Some d \<Rightarrow>
          (case decodeResult decodeRecord d of
             None \<Rightarrow> zeroPointNow e s
           | Some records \<Rightarrow>
               (case buildDataPoints e records s of
                  (dataPoints, s1) \<Rightarrow>
                    if length dataPoints = 0 then zeroPointNow e s1
                    else if length dataPoints > 1 then (sort_key Timestamp dataPoints, s1)
                    else (dataPoints, s1))))"

definition getTrafficData ::
  "env \<Rightarrow> WAFCollector \<Rightarrow> string \<Rightarrow> string \<Rightarrow> world \<Rightarrow> TrafficData list \<times> WAFCollector \<times> world" where
  "getTrafficData e w appID deviceID s =
     (case trafficQuery e w appID deviceID s of
        ((resp, startTime, endTime), w1, s1) \<Rightarrow>
          (case trafficDataOf e resp s1 of (dataPoints, s2) \<Rightarrow> (dataPoints, w1, s2)))"

subsection \<open>collectAllData\<close>

text \<open>The DiscoveryRecord of a site: the map literal of the source, in its order.\<close>

definition siteDeviceIDOf :: "string \<Rightarrow> Site \<Rightarrow> string" where
  "siteDeviceIDOf deviceID site =
     (if StructID site = ''0'' \<or> StructID site = [] then deviceID else StructID site)"

definition discoveryRecord :: "string \<Rightarrow> Site \<Rightarrow> (string \<times> string) list" where
  "discoveryRecord deviceID site =
     (let siteDeviceID = siteDeviceIDOf deviceID site;
          enableStr = (if Enabled site then ''1'' else ''0'')
      in [(''{#SITE_ID}'', ID site),
          (''{#SITE_NAME}'', Name site),
          (''{#SITE_TYPE}'', ''WAF''),
          (''{#SITE_IP}'', []),
          (''{#SITE_PORT}'', []),
          (''{#SITE_DOMAIN}'', []),
          (''{#SITE_ENABLE}'', enableStr),
          (''{#STRUCT_ID}'', siteDeviceID),
          (''{#DEVICE_ID}'', siteDeviceID),
          (''{#STRUCT_PK}'', StructID site)])"

definition discoveryJSON :: "string \<Rightarrow> Site list \<Rightarrow> json" where
  "discoveryJSON deviceID sites =
     JObj [(''data'',
            JArr (map (\<lambda>site. JObj (map (\<lambda>(k, v). (k, JStr v)) (discoveryRecord deviceID site)))
                    sites))]"

text \<open>The device id that the collector hands to \<open>getTrafficData\<close> for an enabled site.\<close>

definition actualDeviceIDOf :: "string \<Rightarrow> Site \<Rightarrow> string" where
  "actualDeviceIDOf deviceID site =
     (if StructID site \<noteq> ''0'' then StructID site else deviceID)"

definition sitePoint :: "string \<Rightarrow> string \<Rightarrow> string \<Rightarrow> zvalue \<Rightarrow> int \<Rightarrow> ZabbixData" where
  "sitePoint host metric siteName v clock =
     \<lparr>Host = host, Key = ''waf.site.'' @ metric @ ''['' @ siteName @ '']'', Value = v,
      Clock = clock\<rparr>"

text \<open>The ten points of one sample, in the order of the four \<open>append\<close> calls.\<close>

definition trafficPoints :: "string \<Rightarrow> string \<Rightarrow> TrafficData \<Rightarrow> ZabbixData list" where
  "trafficPoints host siteName td =
     (let c = Timestamp td
      in [sitePoint host ''bytes_in_rate_avg'' siteName (VFloat (BytesInRateAvg td)) c,
          sitePoint host ''bytes_in_rate_max'' siteName (VFloat (BytesInRateMax td)) c,
          sitePoint host ''bytes_out_rate_avg'' siteName (VFloat (BytesOutRateAvg td)) c,
          sitePoint host ''bytes_out_rate_max'' siteName (VFloat (BytesOutRateMax td)) c,
          sitePoint host ''conn_cur_avg'' siteName (VFloat (ConnCurAvg td)) c,
          sitePoint host ''conn_cur_max'' siteName (VFloat (ConnCurMax td)) c,
          sitePoint host ''conn_rate_avg'' siteName (VFloat (ConnRateAvg td)) c,
          sitePoint host ''http_req_cnt_avg'' siteName (VFloat (HTTPReqCntAvg td)) c,
          sitePoint host ''http_req_cnt_max'' siteName (VFloat (HTTPReqCntMax td)) c,
          sitePoint host ''http_req_rate_avg'' siteName (VFloat (HTTPReqRateAvg td)) c])"

definition zeroKeys :: "string list" where
  "zeroKeys =
     [''bytes_in_rate_avg'', ''bytes_in_rate_max'',
      ''bytes_out_rate_avg'', ''bytes_out_rate_max'',
      ''conn_cur_avg'', ''conn_cur_max'', ''conn_rate_avg'',
      ''http_req_cnt_avg'', ''http_req_cnt_max'', ''http_req_rate_avg'']"

text \<open>
  The body of the loop over the sites: the status point, then the samples of an enabled
  site or the zeros of a disabled one, appended to \<open>allData\<close>.
\<close>

definition collectSite ::
  "env \<Rightarrow> WAFCollector \<Rightarrow> string \<Rightarrow> int \<Rightarrow> Site \<Rightarrow> ZabbixData list \<Rightarrow> world
     \<Rightarrow> ZabbixData list \<times> WAFCollector \<times> world" where
  "collectSite e w deviceID timestamp site allData s =
     (let siteName = Name site;
          statusValue = (if Enabled site then 1 else 0);
          allData1 = allData @ [sitePoint (zabbixHost w) ''status'' siteName
                                  (VInt statusValue) timestamp]
      in if Enabled site then
           (case getTrafficData e w (ID site) (actualDeviceIDOf deviceID site) s of
              (trafficDataPoints, w1, s1) \<Rightarrow>
                (allData1 @ concat (map (trafficPoints (zabbixHost w) siteName)
                                      trafficDataPoints),
                 w1, s1))
         else
           (allData1 @ map (\<lambda>key. sitePoint (zabbixHost w) key siteName (VInt 0) timestamp)
                         zeroKeys,
            w, s))"

fun collectSites ::
  "env \<Rightarrow> WAFCollector \<Rightarrow> string \<Rightarrow> int \<Rightarrow> Site list \<Rightarrow> ZabbixData list \<Rightarrow> world
     \<Rightarrow> ZabbixData list \<times> WAFCollector \<times> world" where
  "collectSites e w deviceID timestamp [] allData s = (allData, w, s)"
| "collectSites e w deviceID timestamp (site # rest) allData s =
     (case collectSite e w deviceID timestamp site allData s of
        (allData1, w1, s1) \<Rightarrow> collectSites e w1 deviceID timestamp rest allData1 s1)"

definition collectAllData :: "env \<Rightarrow> WAFCollector \<Rightarrow> world \<Rightarrow> ZabbixData list \<times> WAFCollector \<times> world" where
  "collectAllData e w s =
     (case login e w s of
        (False, s1) \<Rightarrow> ([], w, s1)
      | (True, s1) \<Rightarrow>
          (case getDeviceID e w s1 of
             (d, w1, s2) \<Rightarrow>
               (let deviceID = (if d = [] then ''default'' else d)
                in case getSites e w1 s2 of
                     (sites, w2, s3) \<Rightarrow>
                       if length sites = 0 then ([], w2, s3)
                       else
                         (case now e s3 of
                            (t, s4) \<Rightarrow>
                              (let timestamp = Unix t;
                                   allData =
                                     [\<lparr>Host = zabbixHost w2, Key = ''waf.collector.status'',
                                       Value = VInt 1, Clock = timestamp\<rparr>,
                                      \<lparr>Host = zabbixHost w2, Key = ''waf.collector.timestamp'',
                                       Value = VInt timestamp, Clock = timestamp\<rparr>,
                                      \<lparr>Host = zabbixHost w2, Key = ''waf.sites.discovery'',
                                       Value = VStr (env_marshal e (discoveryJSON deviceID sites)),
                                       Clock = timestamp\<rparr>]
                               in collectSites e w2 deviceID timestamp sites allData s4)))))"

subsection \<open>sendToZabbix\<close>

text \<open>\<open>fmt.Sprintf("%v", item.Value)\<close>\<close>

definition fmt_v :: "env \<Rightarrow> zvalue \<Rightarrow> string" where
  "fmt_v e v = (case v of VInt i \<Rightarrow> fmt_d i | VFloat x \<Rightarrow> env_fmt_float e x | VStr x \<Rightarrow> x)"

definition dquote :: char where "dquote = CHR 0x22"
definition backslash :: char where "backslash = CHR 0x5C"
definition newline :: char where "newline = CHR 0x0A"

definition quoted :: "string \<Rightarrow> string" where
  "quoted x = dquote # x @ [dquote]"

text \<open>One line of the temporary file: the body of the first loop of \<open>sendToZabbix\<close>.\<close>

definition encodeLine :: "env \<Rightarrow> ZabbixData \<Rightarrow> string" where
  "encodeLine e item =
     (let key0 = Key item;
          value0 = fmt_v e (Value item);
          key = (if containsChar key0 (CHR '' '') \<or> containsChar key0 (CHR ''['')
                 then quoted key0 else key0);
          val = (case Value item of
                   VStr strVal \<Rightarrow>
                     if containsChar strVal (CHR '' '') \<or> containsChar strVal dquote
                        \<or> containsChar strVal newline then
                       (let strVal1 = replaceAllChar strVal backslash [backslash, backslash];
                            strVal2 = replaceAllChar strVal1 dquote [backslash, dquote]
                        in quoted strVal2)
                     else value0
                 | _ \<Rightarrow> value0)
      in Host item @ '' '' @ key @ '' '' @ fmt_d (Clock item) @ '' '' @ val @ [newline])"

text \<open>
  \<open>sendToZabbix\<close>: nothing is done without data. Otherwise the lines go to a fresh temporary
  file (never the state file: another name pattern) and the sender runs on it; the
  environment decides how that ends. Only a delivery returns true.
\<close>

definition sendToZabbix :: "env \<Rightarrow> WAFCollector \<Rightarrow> ZabbixData list \<Rightarrow> world \<Rightarrow> bool \<times> world" where
  "sendToZabbix e w data s =
     (if length data = 0 then (False, s)
      else
        (let content = concat (map (encodeLine e) data);
             s1 = s\<lparr>tick := tick s + 1\<rparr>;
             s2 = s1\<lparr>trace := trace s @ [SenderRun (zabbixServer w) content]\<rparr>
         in case env_sink e (tick s) (zabbixServer w) content of
              CreateTempFailed \<Rightarrow> (False, s1)
            | TempWriteFailed \<Rightarrow> (False, s1)
            | SenderNotFound \<Rightarrow> (False, s1)
            | SenderFailed \<Rightarrow> (False, s2)
            | Delivered \<Rightarrow> (True, s2)))"

definition sendCollectorStatus :: "env \<Rightarrow> WAFCollector \<Rightarrow> int \<Rightarrow> world \<Rightarrow> world" where
  "sendCollectorStatus e w status s =
     (case now e s of
        (t, s1) \<Rightarrow>
          snd (sendToZabbix e w
                 [\<lparr>Host = zabbixHost w, Key = ''waf.collector.status'', Value = VInt status,
                   Clock = Unix t\<rparr>] s1))"

subsection \<open>run\<close>

definition run :: "env \<Rightarrow> WAFCollector \<Rightarrow> world \<Rightarrow> bool \<times> WAFCollector \<times> world" where
  "run e w s =
     (case now e s of
        (currentRunTime, s1) \<Rightarrow>
          (case collectAllData e w s1 of
             (data, w1, s2) \<Rightarrow>
               if length data > 0 then
                 (case sendToZabbix e w1 data s2 of
                    (True, s3) \<Rightarrow> (True, w1, saveLastRunTime e w1 currentRunTime s3)
                  | (False, s3) \<Rightarrow> (False, w1, sendCollectorStatus e w1 0 s3))
               else (False, w1, sendCollectorStatus e w1 0 s2)))"

section \<open>Definitions used to state the properties\<close>

subsection \<open>Observations on the trace\<close>

fun isFileWrite :: "event \<Rightarrow> bool" where
  "isFileWrite (FileWrite p d) = True"
| "isFileWrite ev = False"

fun isFileRead :: "event \<Rightarrow> bool" where
  "isFileRead (FileRead p) = True"
| "isFileRead ev = False"

text \<open>A call of \<open>tryGetData\<close> shows in the trace as a minute-granularity traffic query.\<close>

fun isProbe :: "event \<Rightarrow> bool" where
  "isProbe (DoRequest m p ps) = (p = trafficPath \<and> map_of ps ''type'' = Some ''mins'')"
| "isProbe ev = False"

text \<open>
  \<open>effects n s s'\<close>: from \<open>s\<close> to \<open>s'\<close> no file changed, nothing was written, and the state
  file was read \<open>n\<close> times.
\<close>

definition effects :: "nat \<Rightarrow> world \<Rightarrow> world \<Rightarrow> bool" where
  "effects n s s' =
     (files s' = files s
      \<and> (\<exists>evs. trace s' = trace s @ evs \<and> \<not> list_ex isFileWrite evs
                \<and> length (filter isFileRead evs) = n))"

text \<open>Only the cached device id of the collector changed.\<close>

definition onlyDeviceID :: "WAFCollector \<Rightarrow> WAFCollector \<Rightarrow> bool" where
  "onlyDeviceID w w' = (\<exists>x. w' = w\<lparr>cachedDeviceID := x\<rparr>)"

subsection \<open>The specification's words\<close>

text \<open>
  The escaping of a quoted value as the specification describes its result: every
  backslash is doubled and every double quote gets a backslash in front.
\<close>

definition escapeSpec :: "char \<Rightarrow> string" where
  "escapeSpec c = (if c = backslash then [backslash, backslash]
                   else if c = dquote then [backslash, dquote] else [c])"

text \<open>The per-granularity ceiling of the look-back window: 24h, 7d, 30d, and 24h otherwise.\<close>

definition ceilingSpec :: "string \<Rightarrow> int" where
  "ceilingSpec dt =
     (if dt = ''mins'' then 24 * Hour
      else if dt = ''hours'' then 7 * 24 * Hour
      else if dt = ''days'' then 30 * 24 * Hour
      else 24 * Hour)"


subsection \<open>Example inputs\<close>

definition world0 :: world where
  "world0 = \<lparr>tick = 0, files = Map.empty, trace = []\<rparr>"

definition collector0 :: WAFCollector where
  "collector0 = NewWAFCollector ''https://waf'' ''tok'' ''zbx'' ''host'' ''mins''"

text \<open>An appliance that answers no request.\<close>

definition envDown :: env where
  "envDown =
     \<lparr>env_http = (\<lambda>k m p ps. None), env_clock = (\<lambda>k. 1700000000000000000 + int k),
      env_local = (\<lambda>u. 0), env_write = (\<lambda>k. Written), env_sink = (\<lambda>k z c. Delivered),
      env_fmt_float = (\<lambda>x. ''0''), env_marshal = (\<lambda>j. ''{}'')\<rparr>"

definition siteJSON :: "string \<Rightarrow> string \<Rightarrow> bool \<Rightarrow> string \<Rightarrow> json" where
  "siteJSON pk nm en spk =
     JObj [(''_pk'', JStr pk), (''name'', JStr nm), (''enable'', JBool en),
           (''struct_pk'', JStr spk)]"

text \<open>
  An appliance with device id \<open>dev\<close> and the given site list, which answers every other
  request with \<open>null\<close> data (so no traffic record), together with the outcome of every
  write of the state file and of every run of the sender.
\<close>

definition envUp :: "json list \<Rightarrow> write_outcome \<Rightarrow> sink_outcome \<Rightarrow> env" where
  "envUp sites wo so =
     \<lparr>env_http =
        (\<lambda>k m p ps.
           if p = ''/api/v1/device/name/'' then Some (Some (JObj [(''id'', JStr ''dev'')]))
           else if p = ''/api/v1/website/site/'' then Some (Some (JObj [(''result'', JArr sites)]))
           else Some (Some JNull)),
      env_clock = (\<lambda>k. 1700000000000000000 + int k),
      env_local = (\<lambda>u. 0), env_write = (\<lambda>k. wo), env_sink = (\<lambda>k z c. so),
      env_fmt_float = (\<lambda>x. ''0''), env_marshal = (\<lambda>j. ''{}'')\<rparr>"

text \<open>A collector for hourly data that already knows the device id, and a world whose
  state file holds a given timestamp text.\<close>

definition collectorHours :: WAFCollector where
  "collectorHours =
     (NewWAFCollector ''https://waf'' ''tok'' ''zbx'' ''host'' ''hours'')\<lparr>cachedDeviceID := ''dev''\<rparr>"

definition worldAt :: "string \<Rightarrow> world" where
  "worldAt ts =
     \<lparr>tick = 0,
      files = [''/tmp/waf_sender_last_run_host.json'' \<mapsto>
                 marshalLastRunInfo
                   \<lparr>LastRunTime = ts, DataType = ''hours'', ZabbixHost = ''host''\<rparr>],
      trace = []\<rparr>"

subsection \<open>Times that RFC3339 can write\<close>

text \<open>
  A civil time with a four-digit year, an existing day, a time of day and a zone offset
  of less than a day: what the layouts of the collector print in fixed width.
\<close>

definition validCivil :: "civil \<Rightarrow> bool" where
  "validCivil c =
     (0 \<le> cYear c \<and> cYear c \<le> 9999 \<and> 1 \<le> cMonth c \<and> cMonth c \<le> 12
      \<and> 1 \<le> cDay c \<and> cDay c \<le> daysIn (cMonth c) (cYear c)
      \<and> 0 \<le> cHour c \<and> cHour c < 24 \<and> 0 \<le> cMin c \<and> cMin c < 60
      \<and> 0 \<le> cSec c \<and> cSec c < 60 \<and> 0 \<le> cNsec c \<and> cNsec c < 1000000000
      \<and> - 86400 < cOffset c \<and> cOffset c < 86400)"

text \<open>The variables of \<open>parse\<close> holding the date and the time of day of a civil time.\<close>

definition civilFields :: "civil \<Rightarrow> int \<Rightarrow> bool \<Rightarrow> int \<Rightarrow> pfields" where
  "civilFields c ns z off =
     \<lparr>pYear = cYear c, pMonth = cMonth c, pDay = cDay c, pHour = cHour c, pMin = cMin c,
      pSec = cSec c, pNsec = ns, pZ = z, pZoneOffset = off\<rparr>"

text \<open>
  A time whose wall clock, in its zone, lies in the years 0 to 9999 (from
  0000-01-01T00:00:00 up to 9999-12-31T23:59:59), the zone offset being less than a day.
\<close>

definition validTime :: "(int \<Rightarrow> int) \<Rightarrow> Time \<Rightarrow> bool" where
  "validTime lz t =
     (- 62167219200 \<le> Unix t + zoneOffsetOf lz t \<and> Unix t + zoneOffsetOf lz t < 253402300800
      \<and> - 86400 < zoneOffsetOf lz t \<and> zoneOffsetOf lz t < 86400)"

text \<open>The value of a string of digits.\<close>

definition digitsValue :: "string \<Rightarrow> int" where
  "digitsValue xs = fst (leadingInt 0 xs)"

section \<open>Properties\<close>

subsection \<open>What each operation does to the world and to the collector\<close>

lemma effects_refl: "effects 0 s s"
  by (simp add: effects_def)

lemma effects_trans: "effects n s s1 \<Longrightarrow> effects m s1 s2 \<Longrightarrow> effects (n + m) s s2"
  unfolding effects_def by (elim conjE exE) (auto simp: list_ex_iff)

lemma effects_trans0: "effects 0 s s1 \<Longrightarrow> effects m s1 s2 \<Longrightarrow> effects m s s2"
  using effects_trans [of 0 s s1 m s2] by simp

lemma effects_trans0': "effects m s s1 \<Longrightarrow> effects 0 s1 s2 \<Longrightarrow> effects m s s2"
  using effects_trans [of m s s1 0 s2] by simp

lemma effects_now: "now e s = (t, s1) \<Longrightarrow> effects 0 s s1"
  by (auto simp: now_def effects_def)

lemma effects_doRequest: "doRequest e m p ps s = (r, s1) \<Longrightarrow> effects 0 s s1"
  by (auto simp: doRequest_def effects_def)

lemma effects_login: "login e w s = (b, s1) \<Longrightarrow> effects 0 s s1"
  by (auto simp: login_def split: prod.splits option.splits dest: effects_doRequest)

lemma effects_getDeviceID: "getDeviceID e w s = (i, w1, s1) \<Longrightarrow> effects 0 s s1"
  by (auto simp: getDeviceID_def effects_refl split: if_splits prod.splits option.splits
      dest!: effects_doRequest effects_now intro: effects_trans0)

lemma effects_getDeviceSerial: "getDeviceSerial e w s = (i, s1) \<Longrightarrow> effects 0 s s1"
  by (auto simp: getDeviceSerial_def split: prod.splits option.splits dest: effects_doRequest)

lemma effects_getSites: "getSites e w s = (sites, w1, s1) \<Longrightarrow> effects 0 s s1"
  by (auto simp: getSites_def split: prod.splits option.splits
      dest!: effects_doRequest effects_now intro: effects_trans0)

lemma effects_tryGetData: "tryGetData e w a d s = (b, s1) \<Longrightarrow> effects 0 s s1"
  by (auto simp: tryGetData_def split: prod.splits option.splits
      dest!: effects_doRequest effects_now intro: effects_trans0)

lemma effects_probeIDs: "probeIDs e w a ids s = (r, s1) \<Longrightarrow> effects 0 s s1"
proof (induction ids arbitrary: s)
  case Nil
  then show ?case by (simp add: effects_refl)
next
  case (Cons i ids)
  obtain b s2 where t: "tryGetData e w a i s = (b, s2)" by (cases "tryGetData e w a i s")
  have e1: "effects 0 s s2" using t by (rule effects_tryGetData)
  show ?case
  proof (cases b)
    case True
    with Cons.prems t e1 show ?thesis by simp
  next
    case False
    with Cons.prems t have "probeIDs e w a ids s2 = (r, s1)" by simp
    then have "effects 0 s2 s1" by (rule Cons.IH)
    with e1 show ?thesis by (rule effects_trans0)
  qed
qed

lemma effects_tryStructID: "tryStructID e w a d s = (r, s1) \<Longrightarrow> effects 0 s s1"
  by (auto simp: tryStructID_def effects_refl split: prod.splits option.splits bool.splits
      dest: effects_tryGetData)

lemma effects_tryRealDeviceID: "tryRealDeviceID e w a d s = (r, w1, s1) \<Longrightarrow> effects 0 s s1"
  by (auto simp: tryRealDeviceID_def split: prod.splits option.splits bool.splits if_splits
      dest!: effects_tryGetData effects_getDeviceID intro: effects_trans0)

lemma effects_trySerial: "trySerial e w a d s = (r, s1) \<Longrightarrow> effects 0 s s1"
  by (auto simp: trySerial_def split: prod.splits option.splits bool.splits if_splits
      dest!: effects_tryGetData effects_getDeviceSerial intro: effects_trans0)

lemma effects_tryTopology: "tryTopology e w a d ts s = (r, s1) \<Longrightarrow> effects 0 s s1"
proof (induction ts arbitrary: s)
  case Nil
  then show ?case by (simp add: effects_refl)
next
  case (Cons t ts)
  obtain resp s2 where q: "doRequest e ''GET'' (''/api/v1/website/tree/'' @ t @ ''/'') [] s = (resp, s2)"
    by (cases "doRequest e ''GET'' (''/api/v1/website/tree/'' @ t @ ''/'') [] s")
  have e1: "effects 0 s s2" using q by (rule effects_doRequest)
  have "effects 0 s2 s1"
    using Cons.prems q
    by (auto split: option.splits prod.splits dest!: Cons.IH effects_probeIDs intro: effects_trans0)
  with e1 show ?case by (rule effects_trans0)
qed

lemma effects_probeChain: "probeChain e w a d s = (r, w1, s1) \<Longrightarrow> effects 0 s s1"
  unfolding probeChain_def
  by (auto split: prod.splits option.splits bool.splits
      dest!: effects_tryGetData effects_tryStructID effects_tryRealDeviceID effects_tryTopology
             effects_trySerial)
     (meson effects_trans0)+

lemma effects_findWorkingDeviceID: "findWorkingDeviceID e w a d s = (r, w1, s1) \<Longrightarrow> effects 0 s s1"
  unfolding findWorkingDeviceID_def
  by (auto split: prod.splits if_splits
      dest!: effects_getDeviceID effects_probeChain intro: effects_trans0)


lemma effects_zeroPointNow: "zeroPointNow e s = (r, s1) \<Longrightarrow> effects 0 s s1"
  by (auto simp: zeroPointNow_def split: prod.splits dest: effects_now)

lemma effects_recordTimestamp: "recordTimestamp e r s = (ts, s1) \<Longrightarrow> effects 0 s s1"
  by (auto simp: recordTimestamp_def effects_refl
      split: prod.splits option.splits json.splits if_splits dest: effects_now)

lemma effects_buildDataPoints: "buildDataPoints e rs s = (ps, s1) \<Longrightarrow> effects 0 s s1"
proof (induction rs arbitrary: s ps)
  case Nil
  then show ?case by (simp add: effects_refl)
next
  case (Cons r rs)
  show ?case
  proof (cases "validRecord r")
    case False
    with Cons.prems have "buildDataPoints e rs s = (ps, s1)" by simp
    then show ?thesis by (rule Cons.IH)
  next
    case True
    obtain ts s2 where t: "recordTimestamp e r s = (ts, s2)" by (cases "recordTimestamp e r s")
    obtain qs s3 where b: "buildDataPoints e rs s2 = (qs, s3)" by (cases "buildDataPoints e rs s2")
    from Cons.prems True t b have "s3 = s1" by simp
    with b have "effects 0 s2 s1" using Cons.IH by blast
    with effects_recordTimestamp [OF t] show ?thesis by (rule effects_trans0)
  qed
qed

lemma effects_trafficDataOf: "trafficDataOf e resp s = (ps, s1) \<Longrightarrow> effects 0 s s1"
  unfolding trafficDataOf_def
  by (auto split: option.splits prod.splits if_splits
      dest!: effects_zeroPointNow effects_buildDataPoints intro: effects_trans0)

lemma effects_getLastRunTime: "getLastRunTime e w s = (r, s1) \<Longrightarrow> effects 1 s s1"
  by (auto simp: getLastRunTime_def Let_def effects_def split: option.splits)

lemma onlyDeviceID_refl: "onlyDeviceID w w"
  unfolding onlyDeviceID_def by (rule exI [of _ "cachedDeviceID w"]) simp

lemma onlyDeviceID_trans: "onlyDeviceID w w1 \<Longrightarrow> onlyDeviceID w1 w2 \<Longrightarrow> onlyDeviceID w w2"
  unfolding onlyDeviceID_def by auto

lemma onlyDeviceID_fields:
  assumes "onlyDeviceID w w'"
  shows "lastRunFile w' = lastRunFile w" "dataType w' = dataType w" "zabbixHost w' = zabbixHost w"
    "zabbixServer w' = zabbixServer w" "cachedSites w' = cachedSites w"
  using assms unfolding onlyDeviceID_def by auto

lemma only_getDeviceID: "getDeviceID e w s = (i, w1, s1) \<Longrightarrow> onlyDeviceID w w1"
  by (auto simp: getDeviceID_def onlyDeviceID_refl split: if_splits prod.splits option.splits)
     (auto simp: onlyDeviceID_def)

lemma only_tryRealDeviceID: "tryRealDeviceID e w a d s = (r, w1, s1) \<Longrightarrow> onlyDeviceID w w1"
  by (auto simp: tryRealDeviceID_def split: prod.splits bool.splits if_splits dest: only_getDeviceID)

lemma only_probeChain: "probeChain e w a d s = (r, w1, s1) \<Longrightarrow> onlyDeviceID w w1"
  unfolding probeChain_def
  by (auto simp: onlyDeviceID_refl split: prod.splits option.splits bool.splits
      dest: only_tryRealDeviceID)

lemma only_findWorkingDeviceID:
  "findWorkingDeviceID e w a d s = (r, w1, s1) \<Longrightarrow> onlyDeviceID w w1"
  unfolding findWorkingDeviceID_def
  by (auto split: prod.splits if_splits dest: only_getDeviceID only_probeChain
      intro: onlyDeviceID_trans)

lemma trafficQuery_frame:
  assumes "trafficQuery e w a d s = (q, w1, s1)"
  shows "effects 1 s s1" and "onlyDeviceID w w1"
proof -
  obtain i wa sa where f: "findWorkingDeviceID e w a d s = (i, wa, sa)"
    by (cases "findWorkingDeviceID e w a d s")
  obtain t sb where n: "now e sa = (t, sb)" by (cases "now e sa")
  obtain l sc where g: "getLastRunTime e wa sb = (l, sc)" by (cases "getLastRunTime e wa sb")
  obtain t2 sd where n2: "now e sc = (t2, sd)" by (cases "now e sc")
  from assms f n g n2 obtain resp ps where
    r: "doRequest e ''GET'' trafficPath ps sd = (resp, s1)" and w: "w1 = wa"
    by (auto simp: trafficQuery_def Let_def split: prod.splits)
  have "effects 0 s sb"
    using effects_findWorkingDeviceID [OF f] effects_now [OF n] by (rule effects_trans0)
  moreover have "effects 1 sb sc" using g by (rule effects_getLastRunTime)
  moreover have "effects 0 sc s1"
    using effects_now [OF n2] effects_doRequest [OF r] by (rule effects_trans0)
  ultimately show "effects 1 s s1" by (meson effects_trans0 effects_trans0')
  show "onlyDeviceID w w1" using only_findWorkingDeviceID [OF f] w by simp
qed

lemma getTrafficData_frame:
  assumes "getTrafficData e w a d s = (ps, w1, s1)"
  shows "effects 1 s s1" and "onlyDeviceID w w1"
proof -
  obtain q wa sa where t: "trafficQuery e w a d s = (q, wa, sa)"
    by (cases "trafficQuery e w a d s")
  obtain resp st en where q: "q = (resp, st, en)" by (cases q)
  from assms t q obtain qs where d: "trafficDataOf e resp sa = (qs, s1)" and w: "w1 = wa"
    by (auto simp: getTrafficData_def split: prod.splits)
  show "effects 1 s s1"
    using trafficQuery_frame(1) [OF t] effects_trafficDataOf [OF d] by (rule effects_trans0')
  show "onlyDeviceID w w1" using trafficQuery_frame(2) [OF t] w by simp
qed

lemma collectSite_frame:
  assumes "collectSite e w dev ts site acc s = (out, w1, s1)"
  shows "effects (if Enabled site then 1 else 0) s s1" and "onlyDeviceID w w1"
  using assms
  by (auto simp: collectSite_def Let_def effects_refl onlyDeviceID_refl split: if_splits prod.splits
      dest: getTrafficData_frame)

lemma collectSites_frame:
  "collectSites e w dev ts sites acc s = (out, w1, s1) \<Longrightarrow>
     effects (length (filter Enabled sites)) s s1 \<and> onlyDeviceID w w1"
proof (induction sites arbitrary: w acc s)
  case Nil
  then show ?case by (simp add: effects_refl onlyDeviceID_refl)
next
  case (Cons site sites)
  obtain a wa sa where c: "collectSite e w dev ts site acc s = (a, wa, sa)"
    by (cases "collectSite e w dev ts site acc s")
  with Cons.prems have r: "collectSites e wa dev ts sites a sa = (out, w1, s1)" by simp
  have e1: "effects (if Enabled site then 1 else 0) s sa" and o1: "onlyDeviceID w wa"
    using collectSite_frame [OF c] by auto
  have e2: "effects (length (filter Enabled sites)) sa s1" and o2: "onlyDeviceID wa w1"
    using Cons.IH [OF r] by auto
  have "effects ((if Enabled site then 1 else 0) + length (filter Enabled sites)) s s1"
    using e1 e2 by (rule effects_trans)
  moreover have "onlyDeviceID w w1" using o1 o2 by (rule onlyDeviceID_trans)
  ultimately show ?case by (cases "Enabled site") simp_all
qed


lemma only_getSites:
  "getSites e w s = (sites, w1, s1) \<Longrightarrow>
     (sites \<noteq> [] \<longrightarrow> cachedSites w1 = sites) \<and> (cachedSites w1 = sites \<or> cachedSites w1 = cachedSites w)
     \<and> lastRunFile w1 = lastRunFile w \<and> dataType w1 = dataType w \<and> zabbixHost w1 = zabbixHost w
     \<and> zabbixServer w1 = zabbixServer w"
  by (auto simp: getSites_def split: prod.splits option.splits)

lemma collectAllData_frame:
  assumes "collectAllData e w s = (dat, w1, s1)"
  shows "lastRunFile w1 = lastRunFile w \<and> dataType w1 = dataType w \<and> zabbixHost w1 = zabbixHost w
    \<and> zabbixServer w1 = zabbixServer w
    \<and> (\<exists>n. effects n s s1 \<and> (cachedSites w = [] \<longrightarrow> n = length (filter Enabled (cachedSites w1))))"
proof -
  obtain b sa where l: "login e w s = (b, sa)" by (cases "login e w s")
  have ea: "effects 0 s sa" using l by (rule effects_login)
  show ?thesis
  proof (cases b)
    case False
    with assms l have "w1 = w" "s1 = sa" by (auto simp: collectAllData_def)
    with ea show ?thesis by auto
  next
    case True
    obtain d wb sb where g: "getDeviceID e w sa = (d, wb, sb)" by (cases "getDeviceID e w sa")
    obtain sites wc sc where gs: "getSites e wb sb = (sites, wc, sc)"
      by (cases "getSites e wb sb")
    have eb: "effects 0 sa sb" using g by (rule effects_getDeviceID)
    have ec: "effects 0 sb sc" using gs by (rule effects_getSites)
    have esc: "effects 0 s sc" using ea eb ec by (meson effects_trans0)
    note ob = onlyDeviceID_fields [OF only_getDeviceID [OF g]]
    note oc = only_getSites [OF gs]
    show ?thesis
    proof (cases "sites = []")
      case True
      with assms l \<open>b\<close> g gs have "w1 = wc" "s1 = sc" by (auto simp: collectAllData_def Let_def)
      moreover have "cachedSites w = [] \<longrightarrow> cachedSites wc = []" using oc ob True by auto
      ultimately show ?thesis using esc ob oc by auto
    next
      case False
      obtain t sd where n: "now e sc = (t, sd)" by (cases "now e sc")
      from assms l \<open>b\<close> g gs False n obtain dev acc where
        c: "collectSites e wc dev (Unix t) sites acc sd = (dat, w1, s1)"
        by (auto simp: collectAllData_def Let_def)
      have ed: "effects 0 s sd" using esc effects_now [OF n] by (rule effects_trans0)
      have ee: "effects (length (filter Enabled sites)) sd s1" and od: "onlyDeviceID wc w1"
        using collectSites_frame [OF c] by auto
      have "effects (length (filter Enabled sites)) s s1" using ed ee by (rule effects_trans0)
      moreover have "cachedSites w1 = sites" using onlyDeviceID_fields [OF od] oc False by auto
      ultimately show ?thesis using onlyDeviceID_fields [OF od] ob oc by auto
    qed
  qed
qed

lemma effects_sendToZabbix: "sendToZabbix e w d s = (b, s1) \<Longrightarrow> effects 0 s s1"
  by (auto simp: sendToZabbix_def Let_def effects_def split: if_splits sink_outcome.splits)

lemma effects_sendCollectorStatus: "effects 0 s (sendCollectorStatus e w st s)"
proof -
  obtain t s1 where n: "now e s = (t, s1)" by (cases "now e s")
  obtain b s2 where z: "sendToZabbix e w
                 [\<lparr>Host = zabbixHost w, Key = ''waf.collector.status'', Value = VInt st,
                   Clock = Unix t\<rparr>] s1 = (b, s2)" by (metis surj_pair)
  have "sendCollectorStatus e w st s = s2" using n z by (simp add: sendCollectorStatus_def)
  moreover have "effects 0 s s2"
    using effects_now [OF n] effects_sendToZabbix [OF z] by (rule effects_trans0)
  ultimately show ?thesis by simp
qed

text \<open>
  The two ways \<open>run\<close> ends: without a delivery (the world only saw reads and requests),
  or with one, followed by \<open>saveLastRunTime\<close> on the time read first.
\<close>

lemma run_cases:
  assumes "run e w s = (ok, w1, s1)"
  obtains (fail) s2 n where "\<not> ok" "effects n s s2" "s1 = s2"
      "cachedSites w = [] \<longrightarrow> n = length (filter Enabled (cachedSites w1))"
    | (success) s2 n where "ok" "effects n s s2"
      "s1 = saveLastRunTime e w1 (fst (now e s)) s2"
      "cachedSites w = [] \<longrightarrow> n = length (filter Enabled (cachedSites w1))"
      "lastRunFile w1 = lastRunFile w" "dataType w1 = dataType w" "zabbixHost w1 = zabbixHost w"
proof -
  obtain t sa where n: "now e s = (t, sa)" by (cases "now e s")
  obtain dat wa sb where c: "collectAllData e w sa = (dat, wa, sb)"
    by (cases "collectAllData e w sa")
  from collectAllData_frame [OF c] obtain k where
    fr: "lastRunFile wa = lastRunFile w" "dataType wa = dataType w" "zabbixHost wa = zabbixHost w"
    and ek: "effects k sa sb"
    and kk: "cachedSites w = [] \<longrightarrow> k = length (filter Enabled (cachedSites wa))"
    by auto
  have e1: "effects k s sb" using effects_now [OF n] ek by (rule effects_trans0)
  show ?thesis
  proof (cases "length dat > 0")
    case False
    with assms n c have r: "ok = False" "w1 = wa" "s1 = sendCollectorStatus e wa 0 sb"
      by (auto simp: run_def)
    have "effects k s s1" using e1 effects_sendCollectorStatus r(3) by (metis effects_trans0')
    then show ?thesis using fail r kk by blast
  next
    case True
    obtain b sc where z: "sendToZabbix e wa dat sb = (b, sc)" by (cases "sendToZabbix e wa dat sb")
    have e2: "effects k s sc" using e1 effects_sendToZabbix [OF z] by (rule effects_trans0')
    show ?thesis
    proof (cases b)
      case False
      with assms n c True z have r: "ok = False" "w1 = wa" "s1 = sendCollectorStatus e wa 0 sc"
        by (auto simp: run_def)
      have "effects k s s1" using e2 effects_sendCollectorStatus r(3) by (metis effects_trans0')
      then show ?thesis using fail r kk by blast
    next
      case True
      with assms n c \<open>length dat > 0\<close> z
      have r: "ok = True" "w1 = wa" "s1 = saveLastRunTime e wa t sc" by (auto simp: run_def)
      then show ?thesis using success [of k sc] e2 kk fr n by simp
    qed
  qed
qed

subsection \<open>Evaluation on the example inputs\<close>

lemmas resolver_defs = findWorkingDeviceID_def getDeviceID_def probeChain_def tryGetData_def
  tryStructID_def tryRealDeviceID_def trySerial_def getDeviceSerial_def siteTypes_def
  now_def doRequest_def decodeStringStruct_def decodeResult_def decodeTree_def trafficPath_def
  clusterIDs_def children_def clusterPK_def

lemmas run_defs = run_def collectAllData_def login_def getSites_def decodeSite_def
  stringField_def boolField_def jget_def collectSite_def getTrafficData_def trafficQuery_def
  getLastRunTime_def trafficDataOf_def zeroPointNow_def sendToZabbix_def saveLastRunTime_def
  sendCollectorStatus_def actualDeviceIDOf_def decodeRecord_def Let_def

lemma envUp_fields:
  "env_http (envUp sites wo so) k m p ps =
     (if p = ''/api/v1/device/name/'' then Some (Some (JObj [(''id'', JStr ''dev'')]))
      else if p = ''/api/v1/website/site/'' then Some (Some (JObj [(''result'', JArr sites)]))
      else Some (Some JNull))"
  "env_clock (envUp sites wo so) k = 1700000000000000000 + int k"
  "env_local (envUp sites wo so) u = 0"
  "env_write (envUp sites wo so) k = wo"
  "env_sink (envUp sites wo so) k z c = so"
  "env_fmt_float (envUp sites wo so) x = ''0''"
  "env_marshal (envUp sites wo so) j = ''{}''"
  by (simp_all add: envUp_def)

lemma envDown_fields:
  "env_http envDown k m p ps = None"
  "env_clock envDown k = 1700000000000000000 + int k"
  "env_local envDown u = 0"
  "env_write envDown k = Written"
  "env_sink envDown k z c = Delivered"
  "env_fmt_float envDown x = ''0''"
  "env_marshal envDown j = ''{}''"
  by (simp_all add: envDown_def)

lemmas example_defs = envUp_fields envDown_fields siteJSON_def collector0_def
  NewWAFCollector_def world0_def

lemma digit_eval:
  "digit 0 = CHR ''0''" "digit 1 = CHR ''1''" "digit 2 = CHR ''2''" "digit 3 = CHR ''3''"
  "digit 4 = CHR ''4''" "digit 5 = CHR ''5''" "digit 6 = CHR ''6''" "digit 7 = CHR ''7''"
  "digit 8 = CHR ''8''" "digit 9 = CHR ''9''"
  unfolding digit_def by code_simp+

lemma digitsOf_small: "n < 10 \<Longrightarrow> digitsOf n = [digit n]"
  by (simp add: digitsOf.simps)

lemma format_example:
  "Format (\<lambda>u. 0) RFC3339 \<lparr>unixNano = 1700000000000000000, loc = Local\<rparr>
     = ''2023-11-14T22:13:20Z''"
  by code_simp

subsection \<open>Formatting and parsing of times\<close>

lemma digit_props:
  assumes "d < 10"
  shows "isDigitChar (digit d)" and "digitVal (digit d) = int d"
  using assms by (simp_all add: isDigitChar_def digit_def digitVal_def)

lemma digit_not_special:
  assumes "d < 10"
  shows "digit d \<noteq> CHR '' ''" "digit d \<noteq> CHR ''.''" "digit d \<noteq> CHR '',''" "digit d \<noteq> CHR ''Z''"
    "digit d \<noteq> CHR ''-''" "digit d \<noteq> CHR ''+''"
proof -
  have "(of_char (digit d) :: nat) = 48 + d" using assms by (simp add: digit_def)
  then have "\<And>c. (of_char c :: nat) < 48 \<or> (of_char c :: nat) > 57 \<Longrightarrow> digit d \<noteq> c"
    using assms by auto
  then show "digit d \<noteq> CHR '' ''" "digit d \<noteq> CHR ''.''" "digit d \<noteq> CHR '',''" "digit d \<noteq> CHR ''Z''"
    "digit d \<noteq> CHR ''-''" "digit d \<noteq> CHR ''+''"
    by simp_all
qed

lemma digitsOf_2: "10 \<le> n \<Longrightarrow> n < 100 \<Longrightarrow> digitsOf n = [digit (n div 10), digit (n mod 10)]"
  by (subst digitsOf.simps) (simp add: digitsOf_small)

lemma digitsOf_3:
  "100 \<le> n \<Longrightarrow> n < 1000 \<Longrightarrow>
     digitsOf n = [digit (n div 100), digit (n div 10 mod 10), digit (n mod 10)]"
  by (subst digitsOf.simps) (simp add: digitsOf_2 div_mult2_eq [symmetric])

lemma digitsOf_4:
  "1000 \<le> n \<Longrightarrow> n < 10000 \<Longrightarrow>
     digitsOf n = [digit (n div 1000), digit (n div 100 mod 10), digit (n div 10 mod 10),
                   digit (n mod 10)]"
  by (subst digitsOf.simps) (simp add: digitsOf_3 div_mult2_eq [symmetric])

lemma replicate_small:
  "replicate 3 c = [c, c, c]" "replicate 2 c = [c, c]" "replicate (Suc 0) c = [c]"
  by (simp_all add: numeral_3_eq_3 numeral_2_eq_2)

lemma appendInt_2:
  assumes "0 \<le> x" "x < 100"
  shows "appendInt x 2 = [digit (nat x div 10), digit (nat x mod 10)]"
proof (cases "nat x < 10")
  case True
  then show ?thesis using assms by (simp add: appendInt_def digitsOf_small digit_eval replicate_small)
next
  case False
  then show ?thesis using assms by (simp add: appendInt_def digitsOf_2)
qed

lemma appendInt_4:
  assumes "0 \<le> x" "x < 10000"
  shows "appendInt x 4 = [digit (nat x div 1000), digit (nat x div 100 mod 10),
                          digit (nat x div 10 mod 10), digit (nat x mod 10)]"
proof -
  consider "nat x < 10" | "10 \<le> nat x" "nat x < 100" | "100 \<le> nat x" "nat x < 1000"
    | "1000 \<le> nat x" "nat x < 10000"
    using assms by linarith
  then show ?thesis
  proof cases
    case 1
    then show ?thesis using assms by (simp add: appendInt_def digitsOf_small replicate_small digit_eval)
  next
    case 2
    then show ?thesis using assms by (simp add: appendInt_def digitsOf_2 replicate_small digit_eval)
  next
    case 3
    then show ?thesis using assms by (simp add: appendInt_def digitsOf_3 replicate_small digit_eval)
  next
    case 4
    then show ?thesis using assms by (simp add: appendInt_def digitsOf_4)
  qed
qed

lemma int_digits_2:
  assumes "0 \<le> x"
  shows "int (nat x div 10) * 10 + int (nat x mod 10) = x"
  using assms by (simp add: zdiv_int zmod_int)

lemma getnum_appendInt_2:
  assumes "0 \<le> x" "x < 100"
  shows "getnum (appendInt x 2 @ rest) fixed = Some (x, rest)"
proof -
  have a: "nat x div 10 < 10" "nat x mod 10 < 10" using assms by auto
  show ?thesis
    using assms a int_digits_2 [OF assms(1)]
    by (simp add: appendInt_2 getnum_def isDigit_def digit_props)
qed

lemma nat_digits_4:
  "((n div 1000 * 10 + n div 100 mod 10) * 10 + n div 10 mod 10) * 10 + n mod 10 = (n::nat)"
proof -
  have a: "n div 100 = n div 10 div 10" "n div 1000 = n div 10 div 10 div 10"
    by (simp_all add: div_mult2_eq [symmetric])
  show ?thesis unfolding a by simp
qed

lemma int_digits_4:
  assumes "0 \<le> y"
  shows "((int (nat y div 1000) * 10 + int (nat y div 100 mod 10)) * 10
           + int (nat y div 10 mod 10)) * 10 + int (nat y mod 10) = y"
proof -
  have "int (((nat y div 1000 * 10 + nat y div 100 mod 10) * 10 + nat y div 10 mod 10) * 10
          + nat y mod 10) = int (nat y)"
    by (simp only: nat_digits_4)
  then show ?thesis using assms by simp
qed

lemma year_appendInt_4:
  assumes "0 \<le> y" "y < 10000"
  shows "length (appendInt y 4 @ rest) \<ge> 4" "isDigit (appendInt y 4 @ rest) 0"
    "atoi (take 4 (appendInt y 4 @ rest)) = Some y" "drop 4 (appendInt y 4 @ rest) = rest"
proof -
  let ?n = "nat y"
  have a: "?n div 1000 < 10" "?n div 100 mod 10 < 10" "?n div 10 mod 10 < 10" "?n mod 10 < 10"
    using assms by auto
  show "length (appendInt y 4 @ rest) \<ge> 4" "isDigit (appendInt y 4 @ rest) 0"
    "drop 4 (appendInt y 4 @ rest) = rest"
    using assms a by (simp_all add: appendInt_4 isDigit_def digit_props)
  show "atoi (take 4 (appendInt y 4 @ rest)) = Some y"
    using assms a int_digits_4 [OF assms(1)] digit_not_special [OF a(1)]
    by (simp add: appendInt_4 atoi_def digit_props)
qed

lemma skip_char:
  "p \<noteq> CHR '' '' \<Longrightarrow> skip (p # rest) [p] = Some rest"
  by simp

lemma skip_space:
  "rest \<noteq> [] \<Longrightarrow> hd rest \<noteq> CHR '' '' \<Longrightarrow> skip (CHR '' '' # rest) '' '' = Some rest"
  by (cases rest) (simp_all add: cutspace_def)

lemma parse_year:
  assumes "0 \<le> y" "y < 10000"
  shows "parseChunks (stdLongYear # cs) (appendInt y 4 @ rest) f
           = parseChunks cs rest (f\<lparr>pYear := y\<rparr>)"
  using year_appendInt_4 [OF assms, of rest] by simp

lemma parse_month:
  assumes "1 \<le> m" "m \<le> 12"
  shows "parseChunks (stdZeroMonth # cs) (appendInt m 2 @ rest) f
           = parseChunks cs rest (f\<lparr>pMonth := m\<rparr>)"
  using assms by (simp add: getnum_appendInt_2)

lemma parse_day:
  assumes "0 \<le> d" "d < 100"
  shows "parseChunks (stdZeroDay # cs) (appendInt d 2 @ rest) f
           = parseChunks cs rest (f\<lparr>pDay := d\<rparr>)"
  using assms by (simp add: getnum_appendInt_2)

lemma parse_hour:
  assumes "0 \<le> h" "h < 24"
  shows "parseChunks (stdHour # cs) (appendInt h 2 @ rest) f
           = parseChunks cs rest (f\<lparr>pHour := h\<rparr>)"
  using assms by (simp add: getnum_appendInt_2)

lemma parse_minute:
  assumes "0 \<le> m" "m < 60"
  shows "parseChunks (stdZeroMinute # cs) (appendInt m 2 @ rest) f
           = parseChunks cs rest (f\<lparr>pMin := m\<rparr>)"
  using assms by (simp add: getnum_appendInt_2)

lemma parse_second:
  assumes "0 \<le> x" "x < 60"
    and "rest = [] \<or> \<not> commaOrPeriod (hd rest) \<or> nextIsFrac cs"
  shows "parseChunks (stdZeroSecond # cs) (appendInt x 2 @ rest) f
           = parseChunks cs rest (f\<lparr>pSec := x\<rparr>)"
proof -
  have "\<not> (length rest \<ge> 2 \<and> commaOrPeriod (rest ! 0) \<and> isDigit rest 1 \<and> \<not> nextIsFrac cs)"
    using assms(3) by (cases rest) auto
  then show ?thesis using assms(1,2) by (auto simp: getnum_appendInt_2)
qed

lemma parse_lit:
  "p \<noteq> CHR '' '' \<Longrightarrow> parseChunks (Lit [p] # cs) (p # rest) f = parseChunks cs rest f"
  by simp

lemma parse_lit_space:
  "rest \<noteq> [] \<Longrightarrow> hd rest \<noteq> CHR '' '' \<Longrightarrow>
     parseChunks (Lit '' '' # cs) (CHR '' '' # rest) f = parseChunks cs rest f"
  using skip_space [of rest] by simp

lemma appendInt_2_hd:
  assumes "0 \<le> x" "x < 100"
  shows "appendInt x 2 @ rest \<noteq> []" "hd (appendInt x 2 @ rest) \<noteq> CHR '' ''"
proof -
  have "nat x div 10 < 10" using assms by auto
  from digit_not_special(1) [OF this] show "appendInt x 2 @ rest \<noteq> []"
    "hd (appendInt x 2 @ rest) \<noteq> CHR '' ''"
    using assms by (simp_all add: appendInt_2)
qed

text \<open>The zone of RFC3339, written and read back.\<close>

lemma parse_zone:
  assumes "- 86400 < off" "off < 86400"
  shows "parseChunks [stdISO8601ColonTZ] (formatChunk (c\<lparr>cOffset := off\<rparr>) stdISO8601ColonTZ) f
           = Some (if off = 0 then f\<lparr>pZ := True\<rparr>
                   else f\<lparr>pZoneOffset := quot off 60 * 60\<rparr>)"
proof (cases "off = 0")
  case True
  then show ?thesis by simp
next
  case False
  define z where "z = \<bar>quot off 60\<bar>"
  have zq: "z = \<bar>off\<bar> div 60" using False by (simp add: z_def quot_def abs_mult)
  have z: "0 \<le> z" "z < 1440" using assms by (auto simp: zq)
  have h: "0 \<le> z div 60" "z div 60 < 24" "0 \<le> z mod 60" "z mod 60 < 60" using z by auto
  have hh: "z div 60 < 100" "z mod 60 < 100" using h by auto
  have a1: "appendInt (z div 60) 2 = [digit (nat (z div 60) div 10), digit (nat (z div 60) mod 10)]"
    using h hh by (simp add: appendInt_2)
  have a2: "appendInt (z mod 60) 2 = [digit (nat (z mod 60) div 10), digit (nat (z mod 60) mod 10)]"
    using h hh by (simp add: appendInt_2)
  have g1: "getnum (appendInt (z div 60) 2) True = Some (z div 60, [])"
    using getnum_appendInt_2 [of "z div 60" "[]" True] h hh by simp
  have g2: "getnum (appendInt (z mod 60) 2) True = Some (z mod 60, [])"
    using getnum_appendInt_2 [of "z mod 60" "[]" True] h hh by simp
  have bk: "(z div 60 * 60 + z mod 60) * 60 = z * 60" by simp
  have sg: "quot off 60 < 0 \<Longrightarrow> - (z * 60) = quot off 60 * 60"
    "\<not> quot off 60 < 0 \<Longrightarrow> z * 60 = quot off 60 * 60"
    by (auto simp: z_def)
  show ?thesis
  proof (cases "quot off 60 < 0")
    case True
    have "formatChunk (c\<lparr>cOffset := off\<rparr>) stdISO8601ColonTZ =
            CHR ''-'' # appendInt (z div 60) 2 @ CHR '':'' # appendInt (z mod 60) 2"
      using False True by (simp add: Let_def z_def)
    then show ?thesis
      using False True g1 g2 h bk sg
      by (simp add: a1 a2)
  next
    case nn: False
    have "formatChunk (c\<lparr>cOffset := off\<rparr>) stdISO8601ColonTZ =
            CHR ''+'' # appendInt (z div 60) 2 @ CHR '':'' # appendInt (z mod 60) 2"
      using False nn by (simp add: Let_def z_def)
    then show ?thesis
      using False nn g1 g2 h bk sg
      by (simp add: a1 a2)
  qed
qed

lemma month_cases:
  assumes "1 \<le> m" "m \<le> 12"
  shows "m = 1 \<or> m = 2 \<or> m = 3 \<or> m = 4 \<or> m = 5 \<or> m = 6 \<or> m = 7 \<or> m = 8
         \<or> m = 9 \<or> m = 10 \<or> m = 11 \<or> m = (12::int)"
  using assms by presburger

lemma daysIn_le: "1 \<le> m \<Longrightarrow> m \<le> 12 \<Longrightarrow> daysIn m y \<le> 31"
  using month_cases [of m] by (auto simp: daysIn_def daysBefore_def)

lemma parse_second_end:
  assumes "0 \<le> x" "x < 60"
  shows "parseChunks [stdZeroSecond] (appendInt x 2) f = Some (f\<lparr>pSec := x\<rparr>)"
  using parse_second [OF assms, of "[]" "[]" f] by simp

lemma parse_zone_civil:
  assumes "- 86400 < cOffset c" "cOffset c < 86400"
  shows "parseChunks [stdISO8601ColonTZ] (formatChunk c stdISO8601ColonTZ) f
           = Some (if cOffset c = 0 then f\<lparr>pZ := True\<rparr>
                   else f\<lparr>pZoneOffset := quot (cOffset c) 60 * 60\<rparr>)"
  using parse_zone [OF assms, of c f] by simp

lemma zone_hd:
  "formatChunk c stdISO8601ColonTZ \<noteq> []"
  "\<not> commaOrPeriod (hd (formatChunk c stdISO8601ColonTZ))"
  by (simp_all add: Let_def commaOrPeriod_def)

lemmas parse_steps = parse_year parse_month parse_day parse_hour parse_minute parse_second
  parse_second_end parse_lit parse_lit_space appendInt_2_hd

lemma rfc3339_fields:
  assumes "validCivil c"
  shows "parseChunks RFC3339 (formatCivil RFC3339 c) pinit
           = Some (civilFields c 0 (cOffset c = 0)
                     (if cOffset c = 0 then - 1 else quot (cOffset c) 60 * 60))"
proof -
  have d: "cDay c < 100" using assms daysIn_le [of "cMonth c" "cYear c"] by (simp add: validCivil_def)
  show ?thesis
    using assms d zone_hd [of c]
    by (simp add: validCivil_def formatCivil_def RFC3339_def parse_steps parse_zone_civil
        civilFields_def pinit_def
        del: formatChunk.simps(9) parseChunks.simps)
qed

lemma iso_fields:
  assumes "validCivil c"
  shows "parseChunks layoutISO (formatCivil layoutISO c) pinit = Some (civilFields c 0 False (- 1))"
proof -
  have d: "cDay c < 100" using assms daysIn_le [of "cMonth c" "cYear c"] by (simp add: validCivil_def)
  show ?thesis
    using assms d
    by (simp add: validCivil_def formatCivil_def layoutISO_def parse_steps
        civilFields_def pinit_def del: parseChunks.simps)
qed

lemma plain_fields:
  assumes "validCivil c"
  shows "parseChunks layoutPlain (formatCivil layoutPlain c) pinit = Some (civilFields c 0 False (- 1))"
proof -
  have d: "cDay c < 100" using assms daysIn_le [of "cMonth c" "cYear c"] by (simp add: validCivil_def)
  show ?thesis
    using assms d
    by (simp add: validCivil_def formatCivil_def layoutPlain_def parse_steps
        civilFields_def pinit_def del: parseChunks.simps)
qed

lemma divmod_decomp:
  fixes a b m :: int
  assumes "0 < b" "0 \<le> a" "a \<le> m"
  shows "0 \<le> a div b" "a div b \<le> m div b" "a = b * (a div b) + a mod b"
    "0 \<le> a mod b" "a mod b < b"
  using assms by (simp_all add: pos_imp_zdiv_nonneg_iff zdiv_mono1)

lemma mod_full_iff:
  fixes v b :: int
  assumes "0 < v" "v \<le> b"
  shows "v mod b = 0 \<longleftrightarrow> v = b"
proof (cases "v = b")
  case True
  then show ?thesis by simp
next
  case False
  then have "v mod b = v" using assms by simp
  then show ?thesis using assms False by simp
qed

lemma upto4: "0 \<le> k \<Longrightarrow> k \<le> 4 \<Longrightarrow> k = 0 \<or> k = 1 \<or> k = 2 \<or> k = 3 \<or> k = (4::int)"
  by arith

lemma absYearDay_props:
  assumes "absYearDay days = (year, yday)"
  shows "0 \<le> yday" "yday < 365 \<or> (yday = 365 \<and> isLeap year)"
    "- 366 \<le> days \<Longrightarrow> days < 3652059 \<Longrightarrow> 0 \<le> year \<and> year \<le> 9999"
proof -
  define n400 where "n400 = days div 146097"
  define d1 where "d1 = days - 146097 * n400"
  define k100 where "k100 = d1 div 36524"
  define n100 where "n100 = k100 - k100 div 4"
  define d2 where "d2 = d1 - 36524 * n100"
  define n4 where "n4 = d2 div 1461"
  define d3 where "d3 = d2 - 1461 * n4"
  define k1 where "k1 = d3 div 365"
  define n1 where "n1 = k1 - k1 div 4"
  have "(year, yday) = (400 * n400 + 100 * n100 + 4 * n4 + n1 + 1, d3 - 365 * n1)"
    unfolding assms [symmetric] absYearDay_def Let_def n1_def k1_def d3_def n4_def d2_def n100_def
      k100_def d1_def n400_def
    by (rule refl)
  then have y: "year = 400 * n400 + 100 * n100 + 4 * n4 + n1 + 1" and yd: "yday = d3 - 365 * n1"
    by simp_all
  have dm: "d1 = days mod 146097" unfolding d1_def n400_def by (simp add: minus_mult_div_eq_mod)
  have b1: "0 \<le> d1" "d1 \<le> 146096" using dm by simp_all
  have q100: "0 \<le> k100" "k100 \<le> 4" "d1 = 36524 * k100 + d1 mod 36524" "0 \<le> d1 mod 36524"
    "d1 mod 36524 < 36524"
    using divmod_decomp [of 36524 d1 146096] b1 unfolding k100_def by simp_all
  have c100: "k100 = 0 \<or> k100 = 1 \<or> k100 = 2 \<or> k100 = 3 \<or> k100 = 4"
    using q100(1,2) by (rule upto4)
  have b100: "0 \<le> n100" "n100 \<le> 3" "0 \<le> d2" "d2 \<le> 36524" "d2 = 36524 \<longrightarrow> n100 = 3"
    "n100 = 3 \<longrightarrow> 109572 \<le> d1"  "k100 \<ge> 3 \<longrightarrow> n100 = 3"
    using c100 q100(3,4,5) b1 unfolding d2_def n100_def by auto
  have q4: "0 \<le> n4" "n4 \<le> 24" "d2 = 1461 * n4 + d2 mod 1461" "0 \<le> d2 mod 1461"
    "d2 mod 1461 < 1461"
    using divmod_decomp [of 1461 d2 36524] b100(3,4) unfolding n4_def by simp_all
  have d3m: "d3 = d2 mod 1461" unfolding d3_def n4_def by (simp add: minus_mult_div_eq_mod)
  have b4: "0 \<le> n4" "n4 \<le> 24" "0 \<le> d3" "d3 \<le> 1460" "d2 = 1461 * n4 + d3"
    using q4 d3m by auto
  have q1: "0 \<le> k1" "k1 \<le> 4" "d3 = 365 * k1 + d3 mod 365" "0 \<le> d3 mod 365"
    "d3 mod 365 < 365"
    using divmod_decomp [of 365 d3 1460] b4(3,4) unfolding k1_def by simp_all
  have c1: "k1 = 0 \<or> k1 = 1 \<or> k1 = 2 \<or> k1 = 3 \<or> k1 = 4"
    using q1(1,2) by (rule upto4)
  have b1y: "0 \<le> n1" "n1 \<le> 3" "0 \<le> yday" "yday \<le> 365" "yday = 365 \<longrightarrow> n1 = 3 \<and> d3 = 1460"
    "n1 = 3 \<longrightarrow> 1095 \<le> d3" "k1 \<ge> 3 \<longrightarrow> n1 = 3"
    using c1 q1(3,4,5) b4(3,4) unfolding yd n1_def by auto
  show "0 \<le> yday" by (rule b1y(3))
  have m4: "year mod 4 = (n1 + 1) mod 4"
  proof -
    have "year = 4 * (100 * n400 + 25 * n100 + n4) + (n1 + 1)" unfolding y by simp
    then show ?thesis by (simp only: mod_mult_self4)
  qed
  have m100: "year mod 100 = (4 * n4 + n1 + 1) mod 100"
  proof -
    have "year = 100 * (4 * n400 + n100) + (4 * n4 + n1 + 1)" unfolding y by simp
    then show ?thesis by (simp only: mod_mult_self4)
  qed
  have m400: "year mod 400 = (100 * n100 + 4 * n4 + n1 + 1) mod 400"
  proof -
    have "year = 400 * n400 + (100 * n100 + 4 * n4 + n1 + 1)" unfolding y by simp
    then show ?thesis by (simp only: mod_mult_self4)
  qed
  have l4: "year mod 4 = 0 \<longleftrightarrow> n1 = 3"
    unfolding m4 using b1y(1,2) by (subst mod_full_iff) auto
  have l100: "year mod 100 = 0 \<longleftrightarrow> n4 = 24 \<and> n1 = 3"
    unfolding m100 using b1y(1,2) b4(1,2) by (subst mod_full_iff) auto
  have l400: "year mod 400 = 0 \<longleftrightarrow> n100 = 3 \<and> n4 = 24 \<and> n1 = 3"
    unfolding m400 using b1y(1,2) b4(1,2) b100(1,2) by (subst mod_full_iff) auto
  have leap: "isLeap year \<longleftrightarrow> n1 = 3 \<and> (n4 \<noteq> 24 \<or> n100 = 3)"
    unfolding isLeap_def l4 l100 l400 by auto
  show "yday < 365 \<or> (yday = 365 \<and> isLeap year)"
    using b1y(4,5) b4(5) b100(5) leap by auto
  show "0 \<le> year \<and> year \<le> 9999" if r: "- 366 \<le> days" "days < 3652059"
  proof -
    have "- 366 div 146097 \<le> n400" unfolding n400_def using r(1) by (intro zdiv_mono1) simp_all
    moreover have "n400 \<le> 3652058 div 146097"
      unfolding n400_def using r(2) by (intro zdiv_mono1) simp_all
    ultimately have n: "- 1 \<le> n400" "n400 \<le> 24" by simp_all
    have lo: "n100 = 3 \<and> n4 = 24 \<and> n1 = 3" if "n400 = - 1"
    proof -
      have a: "145731 \<le> d1" using that r(1) unfolding d1_def by simp
      have "145731 div 36524 \<le> k100" unfolding k100_def using a by (intro zdiv_mono1) simp_all
      then have a1: "n100 = 3" using b100(7) by simp
      then have a2: "36159 \<le> d2" using a unfolding d2_def by simp
      have "36159 div 1461 \<le> n4" unfolding n4_def using a2 by (intro zdiv_mono1) simp_all
      then have a3: "n4 = 24" using b4(2) by simp
      then have a4: "1095 \<le> d3" using a2 b4(5) by simp
      have "1095 div 365 \<le> k1" unfolding k1_def using a4 by (intro zdiv_mono1) simp_all
      then have "n1 = 3" using b1y(7) by simp
      with a1 a3 show ?thesis by simp
    qed
    have hi: "100 * n100 + 4 * n4 + n1 \<le> 398" if "n400 = 24"
    proof (rule ccontr)
      assume "\<not> ?thesis"
      then have e: "n100 = 3" "n4 = 24" "n1 = 3"
        using b100(1,2) b4(1,2) b1y(1,2) by auto
      have "d1 \<le> 145730" using that r(2) unfolding d1_def by simp
      moreover have "d1 = 109572 + d2" using e(1) unfolding d2_def by simp
      moreover have "d2 = 35064 + d3" using e(2) b4(5) by simp
      moreover have "1095 \<le> d3" using e(3) b1y(6) by simp
      ultimately show False by simp
    qed
    have "0 \<le> year"
    proof (cases "n400 = - 1")
      case True
      then show ?thesis using lo unfolding y by simp
    next
      case False
      then have "0 \<le> n400" using n by simp
      then show ?thesis using b100(1) b4(1) b1y(1) unfolding y by simp
    qed
    moreover have "year \<le> 9999"
    proof (cases "n400 = 24")
      case True
      then show ?thesis using hi unfolding y by simp
    next
      case False
      then have "n400 \<le> 23" using n by simp
      then show ?thesis using b100(2) b4(2) b1y(2) unfolding y by simp
    qed
    ultimately show ?thesis by simp
  qed
qed

lemma upto11:
  "0 \<le> k \<Longrightarrow> k \<le> 11 \<Longrightarrow>
     k = 0 \<or> k = 1 \<or> k = 2 \<or> k = 3 \<or> k = 4 \<or> k = 5 \<or> k = 6 \<or> k = 7 \<or> k = 8 \<or> k = 9
     \<or> k = 10 \<or> k = (11::int)"
  by arith

lemma monthDay_valid:
  fixes day :: int
  assumes "0 \<le> day" "day \<le> 364"
    and "m = day div 31" and "e = daysBefore ! nat (m + 1)"
    and "r = (if day \<ge> e then (m + 2, day - e + 1) else (m + 1, day - daysBefore ! nat m + 1))"
  shows "1 \<le> fst r \<and> fst r \<le> 12 \<and> 1 \<le> snd r
         \<and> snd r \<le> daysBefore ! nat (fst r) - daysBefore ! nat (fst r - 1)
         \<and> (fst r \<le> 2 \<longrightarrow> day < 59) \<and> (fst r \<ge> 3 \<longrightarrow> day \<ge> 59)"
proof -
  have q: "0 \<le> m" "m \<le> 11" "day = 31 * m + day mod 31" "0 \<le> day mod 31" "day mod 31 < 31"
    using divmod_decomp [of 31 day 364] assms(1,2) unfolding assms(3) by simp_all
  have c: "m = 0 \<or> m = 1 \<or> m = 2 \<or> m = 3 \<or> m = 4 \<or> m = 5 \<or> m = 6 \<or> m = 7 \<or> m = 8 \<or> m = 9
     \<or> m = 10 \<or> m = 11"
    using q(1,2) by (rule upto11)
  obtain r0 where r0: "day = 31 * m + r0" "0 \<le> r0" "r0 < 31"
    using q(3,4,5) by blast
  show ?thesis
    using c r0 assms(2)
    unfolding assms(5) assms(4)
    by (elim disjE) (auto simp: daysBefore_def)
qed

lemma absDate_valid:
  assumes "absDate days = (y, m, d)" "- 366 \<le> days" "days < 3652059"
  shows "0 \<le> y \<and> y \<le> 9999 \<and> 1 \<le> m \<and> m \<le> 12 \<and> 1 \<le> d \<and> d \<le> daysIn m y"
proof -
  obtain year yday where a: "absYearDay days = (year, yday)" by (cases "absYearDay days")
  note p = absYearDay_props [OF a]
  have yr: "0 \<le> year \<and> year \<le> 9999" using p(3) assms(2,3) by simp
  show ?thesis
  proof (cases "isLeap year \<and> yday = 59")
    case True
    then have "(y, m, d) = (year, 2, 29)" using assms(1) a by (simp add: absDate_def)
    then show ?thesis using yr True by (simp add: daysIn_def)
  next
    case False
    define day where "day = (if isLeap year \<and> yday > 59 then yday - 1 else yday)"
    define r where "r = (if day \<ge> daysBefore ! nat (day div 31 + 1)
                         then (day div 31 + 2, day - daysBefore ! nat (day div 31 + 1) + 1)
                         else (day div 31 + 1, day - daysBefore ! nat (day div 31) + 1))"
    have b: "0 \<le> day" "day \<le> 364" using p(1,2) False unfolding day_def by auto
    have e: "(y, m, d) = (year, fst r, snd r)"
      using assms(1) a False unfolding absDate_def r_def day_def Let_def
      by (auto split: if_splits)
    note v = monthDay_valid [OF b refl refl r_def]
    have "d \<le> daysIn m y"
      using v e by (auto simp: daysIn_def daysBefore_def)
    then show ?thesis using v e yr by auto
  qed
qed

lemma civilOf_offset: "cOffset (civilOf lz t) = zoneOffsetOf lz t"
  by (simp add: civilOf_def Let_def split: prod.splits)

lemma civilOf_valid:
  assumes "validTime lz t"
  shows "validCivil (civilOf lz t)"
proof -
  define ab where "ab = Unix t + zoneOffsetOf lz t"
  define secs where "secs = ab mod 86400"
  obtain y m d where a: "absDate (ab div 86400 + unixToInternal) = (y, m, d)" by (metis prod_cases3)
  have r: "- 62167219200 \<le> ab" "ab \<le> 253402300799" "- 86400 < zoneOffsetOf lz t"
    "zoneOffsetOf lz t < 86400"
    using assms unfolding validTime_def ab_def by simp_all
  have "- 62167219200 div 86400 \<le> ab div 86400" using r(1) by (intro zdiv_mono1) simp_all
  moreover have "ab div 86400 \<le> 253402300799 div 86400" using r(2) by (intro zdiv_mono1) simp_all
  ultimately have dr: "- 366 \<le> ab div 86400 + unixToInternal" "ab div 86400 + unixToInternal < 3652059"
    by (simp_all add: unixToInternal_def)
  note v = absDate_valid [OF a dr]
  have s: "0 \<le> secs" "secs \<le> 86399" unfolding secs_def by simp_all
  have h: "0 \<le> secs div 3600" "secs div 3600 \<le> 86399 div 3600"
    using s by (simp_all add: pos_imp_zdiv_nonneg_iff zdiv_mono1)
  have mi: "0 \<le> secs mod 3600 div 60" "secs mod 3600 div 60 \<le> 3599 div 60"
    by (simp_all add: pos_imp_zdiv_nonneg_iff zdiv_mono1)
  have c: "civilOf lz t =
      \<lparr>cYear = y, cMonth = m, cDay = d, cHour = secs div 3600, cMin = secs mod 3600 div 60,
       cSec = secs mod 60, cNsec = unixNano t mod 1000000000, cOffset = zoneOffsetOf lz t\<rparr>"
    using a unfolding civilOf_def Let_def ab_def secs_def by simp
  show ?thesis
    unfolding c validCivil_def using v h mi r(3,4) by simp
qed

lemma leadingInt_digits:
  "list_all isDigitChar xs \<Longrightarrow>
     leadingInt acc (xs @ ys) = leadingInt (acc * 10 ^ length xs + digitsValue xs) ys"
proof (induction xs arbitrary: acc ys)
  case Nil
  then show ?case by (simp add: digitsValue_def)
next
  case (Cons c cs)
  have a: "leadingInt acc ((c # cs) @ ys)
             = leadingInt ((acc * 10 + digitVal c) * 10 ^ length cs + digitsValue cs) ys"
    using Cons.prems Cons.IH [of "acc * 10 + digitVal c" ys] by simp
  have "leadingInt 0 (c # cs) = leadingInt (digitVal c) cs" using Cons.prems by simp
  also have "\<dots> = leadingInt (digitVal c) (cs @ [])" by simp
  also have "\<dots> = leadingInt (digitVal c * 10 ^ length cs + digitsValue cs) []"
    using Cons.prems Cons.IH [of "digitVal c" "[]"] by simp
  also have "\<dots> = (digitVal c * 10 ^ length cs + digitsValue cs, [])" by simp
  ultimately have b: "digitsValue (c # cs) = digitVal c * 10 ^ length cs + digitsValue cs"
    by (simp add: digitsValue_def)
  show ?case unfolding a b by (simp add: algebra_simps)
qed

lemma leadingInt_all:
  "list_all isDigitChar xs \<Longrightarrow> leadingInt 0 xs = (digitsValue xs, [])"
  using leadingInt_digits [of xs 0 "[]"] by simp

lemma digitsValue_append:
  "list_all isDigitChar xs \<Longrightarrow> list_all isDigitChar ys \<Longrightarrow>
     digitsValue (xs @ ys) = digitsValue xs * 10 ^ length ys + digitsValue ys"
proof -
  assume x: "list_all isDigitChar xs" and y: "list_all isDigitChar ys"
  have "leadingInt 0 (xs @ ys) = leadingInt (digitsValue xs) ys"
    using leadingInt_digits [OF x, of 0 ys] by simp
  also have "\<dots> = leadingInt (digitsValue xs) (ys @ [])" by simp
  also have "\<dots> = (digitsValue xs * 10 ^ length ys + digitsValue ys, [])"
    using leadingInt_digits [OF y, of "digitsValue xs" "[]"] by simp
  finally show ?thesis by (simp add: digitsValue_def)
qed

lemma digitVal_range: "isDigitChar c \<Longrightarrow> 0 \<le> digitVal c \<and> digitVal c \<le> 9"
  by (auto simp: isDigitChar_def digitVal_def)

lemma digitsValue_range:
  "list_all isDigitChar xs \<Longrightarrow> 0 \<le> digitsValue xs \<and> digitsValue xs < 10 ^ length xs"
proof (induction xs rule: rev_induct)
  case Nil
  then show ?case by (simp add: digitsValue_def)
next
  case (snoc c xs)
  have v: "digitsValue (xs @ [c]) = digitsValue xs * 10 + digitsValue [c]"
    using snoc.prems digitsValue_append [of xs "[c]"] by simp
  have c: "digitsValue [c] = digitVal c" using snoc.prems by (simp add: digitsValue_def)
  have r: "0 \<le> digitVal c \<and> digitVal c \<le> 9" using snoc.prems by (simp add: digitVal_range)
  have i: "0 \<le> digitsValue xs" "digitsValue xs + 1 \<le> 10 ^ length xs"
    using snoc by auto
  have "digitsValue xs * 10 + 10 \<le> 10 ^ length xs * 10" using i(2) by simp
  then show ?case unfolding v c using r i(1) by simp
qed

lemma digitsValue_zeros: "digitsValue (replicate j (CHR ''0'')) = 0"
proof (induction j)
  case 0
  then show ?case by (simp add: digitsValue_def)
next
  case (Suc j)
  have "isDigitChar (CHR ''0'')" by (simp add: isDigitChar_def)
  then show ?case using Suc by (simp add: digitsValue_def digitVal_def)
qed

lemma digitsValue_take:
  assumes "list_all isDigitChar xs" "k \<le> length xs"
  shows "digitsValue (take (length xs - k) xs) = digitsValue xs div 10 ^ k"
proof -
  let ?a = "take (length xs - k) xs" and ?b = "drop (length xs - k) xs"
  have a: "list_all isDigitChar ?a" and b: "list_all isDigitChar ?b"
    using assms(1) by (auto simp: list_all_iff dest: in_set_takeD in_set_dropD)
  have l: "length ?b = k" using assms(2) by simp
  have "digitsValue xs = digitsValue ?a * 10 ^ k + digitsValue ?b"
    using digitsValue_append [OF a b] l by simp
  moreover have "0 \<le> digitsValue ?b \<and> digitsValue ?b < 10 ^ k"
    using digitsValue_range [OF b] l by simp
  ultimately show ?thesis by simp
qed

lemma digitsOf_digits: "list_all isDigitChar (digitsOf n)"
proof (induction n rule: digitsOf.induct)
  case (1 n)
  show ?case
  proof (cases "n < 10")
    case True
    then show ?thesis by (simp add: digitsOf_small digit_props)
  next
    case False
    then have "digitsOf n = digitsOf (n div 10) @ [digit (n mod 10)]"
      by (subst digitsOf.simps) simp
    then show ?thesis using 1 False by (simp add: digit_props)
  qed
qed

lemma digitsValue_single: "isDigitChar c \<Longrightarrow> digitsValue [c] = digitVal c"
  by (simp add: digitsValue_def)

lemma digitsOf_value: "digitsValue (digitsOf n) = int n"
proof (induction n rule: digitsOf.induct)
  case (1 n)
  show ?case
  proof (cases "n < 10")
    case True
    then show ?thesis by (simp add: digitsOf_small digit_props digitsValue_single)
  next
    case False
    then have e: "digitsOf n = digitsOf (n div 10) @ [digit (n mod 10)]"
      by (subst digitsOf.simps) simp
    have "digitsValue (digitsOf n) = digitsValue (digitsOf (n div 10)) * 10 + int (n mod 10)"
      unfolding e using digitsValue_append [of "digitsOf (n div 10)" "[digit (n mod 10)]"]
      by (simp add: digitsOf_digits digit_props digitsValue_single)
    also have "\<dots> = int (n div 10) * 10 + int (n mod 10)" using 1 False by simp
    also have "\<dots> = int (n div 10 * 10 + n mod 10)" by (simp only: of_nat_add of_nat_mult of_nat_numeral)
    also have "\<dots> = int n" by (simp only: div_mult_mod_eq)
    finally show ?thesis .
  qed
qed

lemma digitsOf_length: "0 < k \<Longrightarrow> n < 10 ^ k \<Longrightarrow> length (digitsOf n) \<le> k"
proof (induction n arbitrary: k rule: digitsOf.induct)
  case (1 n)
  show ?case
  proof (cases "n < 10")
    case True
    then show ?thesis using "1.prems" by (simp add: digitsOf_small)
  next
    case False
    then have e: "digitsOf n = digitsOf (n div 10) @ [digit (n mod 10)]"
      by (subst digitsOf.simps) simp
    obtain j where k: "k = Suc j" using "1.prems"(1) by (cases k) auto
    have j: "0 < j" using False "1.prems"(2) k by (cases j) auto
    have "n div 10 < 10 ^ j" using "1.prems"(2) k by (simp add: less_mult_imp_div_less)
    then have "length (digitsOf (n div 10)) \<le> j" using "1.IH" [OF False j] by simp
    then show ?thesis unfolding e k by simp
  qed
qed

lemma digitsValue_pad:
  "list_all isDigitChar ds \<Longrightarrow> digitsValue (replicate j (CHR ''0'') @ ds) = digitsValue ds"
proof -
  assume d: "list_all isDigitChar ds"
  have "list_all isDigitChar (replicate j (CHR ''0''))"
    by (simp add: list_all_iff isDigitChar_def)
  then show ?thesis using digitsValue_append [OF _ d, of "replicate j (CHR ''0'')"]
    by (simp add: digitsValue_zeros)
qed

lemma appendInt_9:
  assumes "0 \<le> x" "x < 1000000000"
  shows "list_all isDigitChar (appendInt x 9)" "length (appendInt x 9) = 9"
    "digitsValue (appendInt x 9) = x"
proof -
  have n: "nat x < 10 ^ 9" using assms by simp
  have l: "length (digitsOf (nat x)) \<le> 9" using digitsOf_length [OF _ n] by simp
  have a: "appendInt x 9 = replicate (9 - length (digitsOf (nat x))) (CHR ''0'') @ digitsOf (nat x)"
    using assms by (simp add: appendInt_def Let_def)
  show "list_all isDigitChar (appendInt x 9)"
    unfolding a using digitsOf_digits [of "nat x"] by (auto simp: list_all_iff isDigitChar_def)
  show "length (appendInt x 9) = 9" unfolding a using l by simp
  show "digitsValue (appendInt x 9) = x"
    unfolding a using assms by (simp add: digitsValue_pad digitsOf_digits digitsOf_value)
qed

text \<open>The six digits of a \<open>.999999\<close> field before trimming.\<close>

lemma micro_digits:
  assumes "0 \<le> x" "x < 1000000000"
  shows "list_all isDigitChar (take 6 (appendInt x 9))" "length (take 6 (appendInt x 9)) = 6"
    "digitsValue (take 6 (appendInt x 9)) = x div 1000"
proof -
  note a = appendInt_9 [OF assms]
  show "list_all isDigitChar (take 6 (appendInt x 9))"
    using a(1) by (auto simp: list_all_iff dest: in_set_takeD)
  show "length (take 6 (appendInt x 9)) = 6" using a(2) by simp
  show "digitsValue (take 6 (appendInt x 9)) = x div 1000"
    using digitsValue_take [OF a(1), of 3] a(2,3) by simp
qed

lemma trimZeros_dot: "trimZeros (CHR ''.'' # ds) = CHR ''.'' # trimZeros ds"
proof -
  have "dropWhile (\<lambda>c. c = CHR ''0'') (rev ds @ [CHR ''.''])
          = dropWhile (\<lambda>c. c = CHR ''0'') (rev ds) @ [CHR ''.'']"
    by (induction "rev ds" arbitrary: ds) (auto simp: dropWhile_append)
  then show ?thesis by (simp add: trimZeros_def)
qed

lemma trimZeros_split:
  "ds = trimZeros ds @ replicate (length ds - length (trimZeros ds)) (CHR ''0'')"
proof -
  let ?P = "\<lambda>c. c = CHR ''0''"
  have a: "rev ds = takeWhile ?P (rev ds) @ dropWhile ?P (rev ds)" by simp
  have b: "takeWhile ?P (rev ds) = replicate (length (takeWhile ?P (rev ds))) (CHR ''0'')"
    by (rule replicate_length_same [symmetric]) (auto dest: set_takeWhileD)
  have "ds = rev (rev ds)" by simp
  also have "\<dots> = rev (dropWhile ?P (rev ds)) @ rev (takeWhile ?P (rev ds))"
    by (subst a) (simp only: rev_append)
  finally have c: "ds = trimZeros ds @ rev (takeWhile ?P (rev ds))" by (simp add: trimZeros_def)
  have "length ds = length (trimZeros ds) + length (takeWhile ?P (rev ds))"
    by (subst c) simp
  then have d: "length (takeWhile ?P (rev ds)) = length ds - length (trimZeros ds)" by simp
  have "rev (takeWhile ?P (rev ds)) = replicate (length ds - length (trimZeros ds)) (CHR ''0'')"
    by (subst b) (simp add: d)
  then show ?thesis using c by simp
qed

lemma trimZeros_digits: "list_all isDigitChar ds \<Longrightarrow> list_all isDigitChar (trimZeros ds)"
  by (auto simp: trimZeros_def list_all_iff dest: set_dropWhileD)

lemma trimZeros_length: "length (trimZeros ds) \<le> length ds"
  by (simp add: trimZeros_def length_dropWhile_le [of _ "rev ds", simplified])

lemma trimZeros_value:
  assumes "list_all isDigitChar ds"
  shows "digitsValue ds = digitsValue (trimZeros ds) * 10 ^ (length ds - length (trimZeros ds))"
proof -
  let ?j = "length ds - length (trimZeros ds)"
  have z: "list_all isDigitChar (replicate ?j (CHR ''0''))"
    by (simp add: list_all_iff isDigitChar_def)
  have "digitsValue ds = digitsValue (trimZeros ds @ replicate ?j (CHR ''0''))"
    using trimZeros_split [of ds] by simp
  also have "\<dots> = digitsValue (trimZeros ds) * 10 ^ ?j"
    using digitsValue_append [OF trimZeros_digits [OF assms] z] by (simp add: digitsValue_zeros)
  finally show ?thesis .
qed

lemma appendNano_cases:
  assumes "0 \<le> x" "x < 1000000000"
  shows "(appendNano x 6 = [] \<and> x div 1000 = 0)
         \<or> (\<exists>ds. appendNano x 6 = CHR ''.'' # ds \<and> ds \<noteq> [] \<and> list_all isDigitChar ds
                  \<and> length ds \<le> 6 \<and> digitsValue ds * 10 ^ (6 - length ds) = x div 1000)"
proof (cases "x = 0")
  case True
  then show ?thesis by (simp add: appendNano_def)
next
  case False
  define D where "D = take 6 (appendInt x 9)"
  note m = micro_digits [OF assms, folded D_def]
  have v: "x div 1000 = digitsValue (trimZeros D) * 10 ^ (6 - length (trimZeros D))"
    using trimZeros_value [OF m(1)] m(2,3) by simp
  have l: "length (trimZeros D) \<le> 6" using trimZeros_length [of D] m(2) by simp
  have a: "appendNano x 6 = (if trimZeros D = [] then [] else CHR ''.'' # trimZeros D)"
    using False by (simp add: appendNano_def Let_def trimZeros_dot D_def)
  show ?thesis
  proof (cases "trimZeros D = []")
    case True
    then show ?thesis using a v by (simp add: digitsValue_def)
  next
    case False
    then show ?thesis using a v l trimZeros_digits [OF m(1)] by simp
  qed
qed

lemma atoi_digits:
  assumes "list_all isDigitChar ds" "ds \<noteq> []"
  shows "atoi ds = Some (digitsValue ds)"
proof -
  obtain c cs where d: "ds = c # cs" using assms(2) by (cases ds) auto
  have "isDigitChar c" using assms(1) d by simp
  then have "c \<noteq> CHR ''-''" "c \<noteq> CHR ''+''" by (auto simp: isDigitChar_def)
  then show ?thesis
    using leadingInt_all [OF assms(1)] d by (simp add: atoi_def Let_def)
qed

lemma frac_parse:
  assumes "list_all isDigitChar ds" "ds \<noteq> []" "length ds \<le> 6"
  shows "fracLen (CHR ''.'' # ds) = 1 + length ds"
    and "parseNanoseconds (CHR ''.'' # ds) (1 + length ds)
           = Some (digitsValue ds * 10 ^ (6 - length ds) * 1000)"
    and "length (CHR ''.'' # ds) \<ge> 2 \<and> commaOrPeriod ((CHR ''.'' # ds) ! 0)
           \<and> isDigit (CHR ''.'' # ds) 1"
proof -
  have t: "takeWhile isDigitChar ds = ds" using assms(1) by (simp add: takeWhile_eq_all_conv list_all_iff)
  show "fracLen (CHR ''.'' # ds) = 1 + length ds" by (simp add: fracLen_def t)
  have p: "(10::int) ^ (9 - length ds) = 10 ^ (6 - length ds) * 1000"
  proof -
    define k where "k = 6 - length ds"
    have "9 - length ds = k + 3" using assms(3) unfolding k_def by arith
    then have "(10::int) ^ (9 - length ds) = 10 ^ (k + 3)" by (simp only:)
    also have "\<dots> = 10 ^ k * 1000" by (simp add: power_add)
    finally show ?thesis unfolding k_def .
  qed
  have n: "0 \<le> digitsValue ds" using digitsValue_range [OF assms(1)] by simp
  show "parseNanoseconds (CHR ''.'' # ds) (1 + length ds)
           = Some (digitsValue ds * 10 ^ (6 - length ds) * 1000)"
    using assms(3) n p by (simp add: parseNanoseconds_def commaOrPeriod_def atoi_digits [OF assms(1,2)])
  obtain c cs where d: "ds = c # cs" using assms(2) by (cases ds) auto
  then show "length (CHR ''.'' # ds) \<ge> 2 \<and> commaOrPeriod ((CHR ''.'' # ds) ! 0)
           \<and> isDigit (CHR ''.'' # ds) 1"
    using assms(1) by (simp add: commaOrPeriod_def isDigit_def)
qed

text \<open>A \<open>.999999\<close> field reads back the nanoseconds without what is below a microsecond.\<close>

lemma parse_micro:
  assumes "0 \<le> x" "x < 1000000000" "pNsec f = 0"
  shows "parseChunks [stdFracSecond9 n] (appendNano x 6) f
           = Some (f\<lparr>pNsec := x div 1000 * 1000\<rparr>)"
proof -
  consider "appendNano x 6 = []" "x div 1000 = 0"
    | ds where "appendNano x 6 = CHR ''.'' # ds" "ds \<noteq> []" "list_all isDigitChar ds"
        "length ds \<le> 6" "digitsValue ds * 10 ^ (6 - length ds) = x div 1000"
    using appendNano_cases [OF assms(1,2)] by blast
  then show ?thesis
  proof cases
    case 1
    then show ?thesis using assms(3) by simp
  next
    case 2
    note fp = frac_parse [OF 2(3,2,4)]
    have "parseChunks [stdFracSecond9 n] (CHR ''.'' # ds) f
            = parseChunks [] (drop (fracLen (CHR ''.'' # ds)) (CHR ''.'' # ds))
                (f\<lparr>pNsec := x div 1000 * 1000\<rparr>)"
      using fp(3) fp(2) 2(5) 2(2) by (simp add: fp(1))
    then show ?thesis using 2(1) by (simp add: fp(1))
  qed
qed

text \<open>A layout that ends after the seconds, or goes on with the zone, reads the fraction too.\<close>

lemma parse_second_micro:
  assumes "0 \<le> s" "s < 60" "0 \<le> x" "x < 1000000000" "pNsec f = 0"
  shows "parseChunks [stdZeroSecond, stdFracSecond9 n] (appendInt s 2 @ appendNano x 6) f
           = Some (f\<lparr>pSec := s, pNsec := x div 1000 * 1000\<rparr>)"
proof -
  have "parseChunks [stdZeroSecond, stdFracSecond9 n] (appendInt s 2 @ appendNano x 6) f
          = parseChunks [stdFracSecond9 n] (appendNano x 6) (f\<lparr>pSec := s\<rparr>)"
    using assms(1,2) by (intro parse_second) (simp_all add: nextIsFrac_def)
  then show ?thesis using parse_micro [OF assms(3,4), of "f\<lparr>pSec := s\<rparr>" n] assms(5) by simp
qed

lemma parse_second_zone_fails:
  assumes "0 \<le> s" "s < 60" "0 \<le> x" "x < 1000000000"
  shows "parseChunks [stdZeroSecond, stdISO8601ColonTZ] (appendInt s 2 @ appendNano x 6) f = None"
proof -
  consider "appendNano x 6 = []" "x div 1000 = 0"
    | ds where "appendNano x 6 = CHR ''.'' # ds" "ds \<noteq> []" "list_all isDigitChar ds"
        "length ds \<le> 6" "digitsValue ds * 10 ^ (6 - length ds) = x div 1000"
    using appendNano_cases [OF assms(3,4)] by blast
  then show ?thesis
  proof cases
    case 1
    have "parseChunks [stdZeroSecond, stdISO8601ColonTZ] (appendInt s 2 @ []) f
            = parseChunks [stdISO8601ColonTZ] [] (f\<lparr>pSec := s\<rparr>)"
      using assms(1,2) by (intro parse_second) simp_all
    then show ?thesis using 1(1) by simp
  next
    case 2
    note fp = frac_parse [OF 2(3,2,4)]
    have g: "getnum (appendInt s 2 @ CHR ''.'' # ds) True = Some (s, CHR ''.'' # ds)"
      using assms(1,2) by (simp add: getnum_appendInt_2)
    have "parseChunks [stdZeroSecond, stdISO8601ColonTZ] (appendInt s 2 @ CHR ''.'' # ds) f
            = parseChunks [stdISO8601ColonTZ] (drop (fracLen (CHR ''.'' # ds)) (CHR ''.'' # ds))
                (f\<lparr>pSec := s, pNsec := x div 1000 * 1000\<rparr>)"
      using fp(3) fp(2) 2(5) assms(1,2)
      by (simp add: g fp(1) nextIsFrac_def)
    then show ?thesis using 2(1) by (simp add: fp(1))
  qed
qed

lemma parse_lit_fail:
  "p \<noteq> CHR '' '' \<Longrightarrow> c \<noteq> p \<Longrightarrow> parseChunks (Lit [p] # cs) (c # rest) f = None"
  by simp

lemma parse_zone_end: "parseChunks [stdISO8601ColonTZ] [] f = None"
  by simp

lemma micro_fields:
  assumes "validCivil c"
  shows "parseChunks layoutISOMicro (formatCivil layoutISOMicro c) pinit
           = Some (civilFields c (cNsec c div 1000 * 1000) False (- 1))"
proof -
  have d: "cDay c < 100" using assms daysIn_le [of "cMonth c" "cYear c"] by (simp add: validCivil_def)
  show ?thesis
    using assms d
    by (simp add: validCivil_def formatCivil_def layoutISOMicro_def parse_steps parse_second_micro
        civilFields_def pinit_def del: parseChunks.simps)
qed

lemma micro_on_iso:
  assumes "validCivil c"
  shows "parseChunks layoutISOMicro (formatCivil layoutISO c) pinit
           = Some (civilFields c 0 False (- 1))"
proof -
  have d: "cDay c < 100" using assms daysIn_le [of "cMonth c" "cYear c"] by (simp add: validCivil_def)
  have e: "parseChunks [stdZeroSecond, stdFracSecond9 6] (appendInt (cSec c) 2) f
             = Some (f\<lparr>pSec := cSec c\<rparr>)" for f
    using parse_second [of "cSec c" "[]" "[stdFracSecond9 6]" f] assms
    by (simp add: validCivil_def)
  show ?thesis
    using assms d
    by (simp add: validCivil_def formatCivil_def layoutISOMicro_def layoutISO_def parse_steps e
        civilFields_def pinit_def del: parseChunks.simps)
qed

lemma rfc3339_on_micro:
  assumes "validCivil c"
  shows "parseChunks RFC3339 (formatCivil layoutISOMicro c) pinit = None"
proof -
  have d: "cDay c < 100" using assms daysIn_le [of "cMonth c" "cYear c"] by (simp add: validCivil_def)
  show ?thesis
    using assms d
    by (simp add: validCivil_def formatCivil_def layoutISOMicro_def RFC3339_def parse_steps
        parse_second_zone_fails del: parseChunks.simps)
qed

lemma rfc3339_on_iso:
  assumes "validCivil c"
  shows "parseChunks RFC3339 (formatCivil layoutISO c) pinit = None"
proof -
  have d: "cDay c < 100" using assms daysIn_le [of "cMonth c" "cYear c"] by (simp add: validCivil_def)
  have e: "parseChunks [stdZeroSecond, stdISO8601ColonTZ] (appendInt (cSec c) 2) f = None" for f
    using parse_second [of "cSec c" "[]" "[stdISO8601ColonTZ]" f] assms
    by (simp add: validCivil_def)
  show ?thesis
    using assms d
    by (simp add: validCivil_def formatCivil_def layoutISO_def RFC3339_def parse_steps e
        del: parseChunks.simps)
qed

lemma T_on_plain:
  assumes "validCivil c"
  shows "parseChunks RFC3339 (formatCivil layoutPlain c) pinit = None"
    "parseChunks layoutISOMicro (formatCivil layoutPlain c) pinit = None"
    "parseChunks layoutISO (formatCivil layoutPlain c) pinit = None"
proof -
  have d: "cDay c < 100" using assms daysIn_le [of "cMonth c" "cYear c"] by (simp add: validCivil_def)
  show "parseChunks RFC3339 (formatCivil layoutPlain c) pinit = None"
    using assms d
    by (simp add: validCivil_def formatCivil_def layoutPlain_def RFC3339_def parse_steps
        parse_lit_fail del: parseChunks.simps)
  show "parseChunks layoutISOMicro (formatCivil layoutPlain c) pinit = None"
    using assms d
    by (simp add: validCivil_def formatCivil_def layoutPlain_def layoutISOMicro_def parse_steps
        parse_lit_fail del: parseChunks.simps)
  show "parseChunks layoutISO (formatCivil layoutPlain c) pinit = None"
    using assms d
    by (simp add: validCivil_def formatCivil_def layoutPlain_def layoutISO_def parse_steps
        parse_lit_fail del: parseChunks.simps)
qed

text \<open>The fields of a valid date pass the check of the day after the loop.\<close>

lemma parseFields_civil:
  assumes "validCivil c" "parseChunks layout v pinit = Some (civilFields c ns z off)"
  shows "parseFields layout v = Some (civilFields c ns z off)"
  using assms by (simp add: parseFields_def validCivil_def civilFields_def)

lemma parseFields_none: "parseChunks layout v pinit = None \<Longrightarrow> parseFields layout v = None"
  by (simp add: parseFields_def)

lemma Parse_civil:
  assumes "validCivil c" "parseChunks layout v pinit = Some (civilFields c ns z off)"
  shows "Parse lz layout v = Some (timeOf lz (civilFields c ns z off))"
  using parseFields_civil [OF assms] by (simp add: Parse_def)

lemma Parse_none: "parseChunks layout v pinit = None \<Longrightarrow> Parse lz layout v = None"
  by (simp add: Parse_def parseFields_none)

text \<open>What each layout reads back from its own output.\<close>

lemma Parse_Format_RFC3339:
  assumes "validTime lz t"
  shows "Parse lz RFC3339 (Format lz RFC3339 t) =
           Some (timeOf lz (civilFields (civilOf lz t) 0 (zoneOffsetOf lz t = 0)
                   (if zoneOffsetOf lz t = 0 then - 1 else quot (zoneOffsetOf lz t) 60 * 60)))"
  using Parse_civil [OF civilOf_valid [OF assms] rfc3339_fields [OF civilOf_valid [OF assms]], of lz]
  by (simp add: Format_def civilOf_offset)

lemma Parse_Format_ISOMicro:
  assumes "validTime lz t"
  shows "Parse lz layoutISOMicro (Format lz layoutISOMicro t) =
           Some (timeOf lz (civilFields (civilOf lz t) (cNsec (civilOf lz t) div 1000 * 1000)
                   False (- 1)))"
  using Parse_civil [OF civilOf_valid [OF assms] micro_fields [OF civilOf_valid [OF assms]], of lz]
  by (simp add: Format_def)

lemma Parse_Format_ISO:
  assumes "validTime lz t"
  shows "Parse lz layoutISO (Format lz layoutISO t) =
           Some (timeOf lz (civilFields (civilOf lz t) 0 False (- 1)))"
    and "Parse lz layoutISOMicro (Format lz layoutISO t) =
           Some (timeOf lz (civilFields (civilOf lz t) 0 False (- 1)))"
  using Parse_civil [OF civilOf_valid [OF assms] iso_fields [OF civilOf_valid [OF assms]], of lz]
    Parse_civil [OF civilOf_valid [OF assms] micro_on_iso [OF civilOf_valid [OF assms]], of lz]
  by (simp_all add: Format_def)

lemma Parse_Format_Plain:
  assumes "validTime lz t"
  shows "Parse lz layoutPlain (Format lz layoutPlain t) =
           Some (timeOf lz (civilFields (civilOf lz t) 0 False (- 1)))"
  using Parse_civil [OF civilOf_valid [OF assms] plain_fields [OF civilOf_valid [OF assms]], of lz]
  by (simp add: Format_def)

text \<open>What the layouts tried earlier make of the output of a later one.\<close>

lemma Parse_earlier_fails:
  assumes "validTime lz t"
  shows "Parse lz RFC3339 (Format lz layoutISOMicro t) = None"
    and "Parse lz RFC3339 (Format lz layoutISO t) = None"
    and "Parse lz RFC3339 (Format lz layoutPlain t) = None"
    and "Parse lz layoutISOMicro (Format lz layoutPlain t) = None"
    and "Parse lz layoutISO (Format lz layoutPlain t) = None"
  using civilOf_valid [OF assms]
  by (simp_all add: Format_def Parse_none rfc3339_on_micro rfc3339_on_iso T_on_plain)

lemma cNsec_civilOf: "cNsec (civilOf lz t) = unixNano t mod 1000000000"
  by (simp add: civilOf_def Let_def split: prod.splits)

subsection \<open>The claims\<close>

text \<open>
  C9. Field extraction is total and collapses every non-number to zero: for every raw
  record and key, \<open>getFloatValue\<close> returns the value when the member is a JSON number, and
  0 when the key is absent, when the value is the string \<open>"-"\<close>, and when it is any other
  value that is not a number (a numeric string, a boolean, an object, ...).
\<close>

theorem getFloatValue_total:
  "(jget m key = Some (JNum x) \<longrightarrow> getFloatValue m key = x)
   \<and> (jget m key = None \<longrightarrow> getFloatValue m key = 0)
   \<and> (jget m key = Some (JStr ''-'') \<longrightarrow> getFloatValue m key = 0)
   \<and> ((\<forall>y. jget m key \<noteq> Some (JNum y)) \<longrightarrow> getFloatValue m key = 0)"
  by (auto simp: getFloatValue_def split: option.splits json.splits)

theorem getFloatValue_total_witness:
  "getFloatValue [(''a'', JNum 5), (''b'', JStr ''123'')] ''a'' = 5
   \<and> getFloatValue [(''a'', JNum 5)] ''zz'' = 0
   \<and> getFloatValue [(''c'', JStr ''-'')] ''c'' = 0
   \<and> getFloatValue [(''b'', JStr ''123'')] ''b'' = 0
   \<and> getFloatValue [(''d'', JBool True)] ''d'' = 0
   \<and> getFloatValue [(''e'', JObj [(''f'', JNum 1)])] ''e'' = 0"
  using getFloatValue_total [of "[(''a'', JNum 5), (''b'', JStr ''123'')]" "''a''" 5]
    getFloatValue_total [of "[(''a'', JNum 5)]" "''zz''"]
    getFloatValue_total [of "[(''c'', JStr ''-'')]" "''c''"]
    getFloatValue_total [of "[(''b'', JStr ''123'')]" "''b''"]
    getFloatValue_total [of "[(''d'', JBool True)]" "''d''"]
    getFloatValue_total [of "[(''e'', JObj [(''f'', JNum 1)])]" "''e''"]
  by (simp add: jget_def)

lemma replace_escape:
  "replaceAllChar (replaceAllChar x backslash [backslash, backslash]) dquote [backslash, dquote]
   = concat (map escapeSpec x)"
  by (induction x) (auto simp: backslash_def dquote_def escapeSpec_def)

text \<open>
  C5. Encoder quoting and escaping: every encoded line is host, key, clock and value
  separated by single spaces and ended by a newline; the key is wrapped in double quotes
  iff it contains a space or an opening bracket; a string value that contains a space, a
  double quote or a newline is wrapped in double quotes, with every backslash doubled and
  every double quote preceded by a backslash (the result of escaping backslashes first and
  quotes second), and any other string is written as it is; a numeric value is written in
  its default form, never quoted or escaped.
\<close>

theorem encodeLine_quoting:
  "encodeLine e item =
     Host item @ '' ''
     @ (if CHR '' '' \<in> set (Key item) \<or> CHR ''['' \<in> set (Key item)
        then quoted (Key item) else Key item)
     @ '' '' @ fmt_d (Clock item) @ '' ''
     @ (case Value item of
          VStr x \<Rightarrow>
            if CHR '' '' \<in> set x \<or> dquote \<in> set x \<or> newline \<in> set x
            then quoted (concat (map escapeSpec x)) else x
        | VInt i \<Rightarrow> fmt_d i
        | VFloat r \<Rightarrow> env_fmt_float e r)
     @ [newline]"
  by (simp add: encodeLine_def Let_def containsChar_def replace_escape fmt_v_def
      split: zvalue.splits)

theorem encodeLine_quoting_witness:
  "encodeLine envDown
     \<lparr>Host = ''h'', Key = ''k[a]'', Value = VStr [CHR ''a'', CHR 0x5C, CHR 0x22, CHR ''b''],
      Clock = 7\<rparr>
   = ''h '' @ [CHR 0x22] @ ''k[a]'' @ [CHR 0x22] @ '' 7 ''
     @ [CHR 0x22, CHR ''a'', CHR 0x5C, CHR 0x5C, CHR 0x5C, CHR 0x22, CHR ''b'', CHR 0x22, CHR 0x0A]
   \<and> encodeLine envDown \<lparr>Host = ''h'', Key = ''k'', Value = VInt 3, Clock = 7\<rparr>
       = ''h k 7 3'' @ [CHR 0x0A]"
  using encodeLine_quoting [of envDown
      "\<lparr>Host = ''h'', Key = ''k[a]'', Value = VStr [CHR ''a'', CHR 0x5C, CHR 0x22, CHR ''b''],
        Clock = 7\<rparr>"]
    encodeLine_quoting [of envDown "\<lparr>Host = ''h'', Key = ''k'', Value = VInt 3, Clock = 7\<rparr>"]
  by (simp add: quoted_def escapeSpec_def fmt_d_def digitsOf_small digit_eval backslash_def
      dquote_def newline_def)



text \<open>
  C10. Empty-structId asymmetry: for a site whose structId is empty, the device id handed
  to \<open>getTrafficData\<close> (and by it to the resolver) is the empty string, while the
  DiscoveryRecord carries the primary device id; for structId \<open>"0"\<close> both are the primary
  device id; every structId other than \<open>"0"\<close> is handed over unchanged.
\<close>

theorem empty_structId_asymmetry:
  "(StructID site = [] \<longrightarrow>
      actualDeviceIDOf deviceID site = []
      \<and> map_of (discoveryRecord deviceID site) ''{#DEVICE_ID}'' = Some deviceID
      \<and> map_of (discoveryRecord deviceID site) ''{#STRUCT_ID}'' = Some deviceID)
   \<and> (StructID site = ''0'' \<longrightarrow>
      actualDeviceIDOf deviceID site = deviceID
      \<and> map_of (discoveryRecord deviceID site) ''{#DEVICE_ID}'' = Some deviceID
      \<and> map_of (discoveryRecord deviceID site) ''{#STRUCT_ID}'' = Some deviceID)
   \<and> (StructID site \<noteq> ''0'' \<longrightarrow> actualDeviceIDOf deviceID site = StructID site)
   \<and> (Enabled site \<and> StructID site = [] \<longrightarrow>
      collectSite e w deviceID timestamp site allData s =
        (case getTrafficData e w (ID site) [] s of
           (trafficDataPoints, w1, s1) \<Rightarrow>
             (allData @ sitePoint (zabbixHost w) ''status'' (Name site) (VInt 1) timestamp
                # concat (map (trafficPoints (zabbixHost w) (Name site)) trafficDataPoints),
              w1, s1)))"
  by (simp add: actualDeviceIDOf_def discoveryRecord_def siteDeviceIDOf_def collectSite_def
      Let_def)

theorem empty_structId_asymmetry_witness:
  "actualDeviceIDOf ''dev'' \<lparr>ID = ''1'', Name = ''a'', Enabled = True, StructID = []\<rparr> = []
   \<and> map_of (discoveryRecord ''dev'' \<lparr>ID = ''1'', Name = ''a'', Enabled = True, StructID = []\<rparr>)
        ''{#DEVICE_ID}'' = Some ''dev''
   \<and> actualDeviceIDOf ''dev'' \<lparr>ID = ''1'', Name = ''a'', Enabled = True, StructID = ''0''\<rparr> = ''dev''
   \<and> map_of (discoveryRecord ''dev'' \<lparr>ID = ''1'', Name = ''a'', Enabled = True, StructID = ''0''\<rparr>)
        ''{#DEVICE_ID}'' = Some ''dev''
   \<and> actualDeviceIDOf ''dev'' \<lparr>ID = ''1'', Name = ''a'', Enabled = True, StructID = ''s7''\<rparr> = ''s7''
   \<and> fst (collectSite envDown (collector0\<lparr>cachedDeviceID := ''dev''\<rparr>) ''dev'' 5
        \<lparr>ID = ''1'', Name = ''a'', Enabled = True, StructID = []\<rparr> [] world0)
      = sitePoint ''host'' ''status'' ''a'' (VInt 1) 5
        # map (\<lambda>key. sitePoint ''host'' key ''a'' (VFloat 0) 1700000000) zeroKeys"
  using empty_structId_asymmetry [of "\<lparr>ID = ''1'', Name = ''a'', Enabled = True, StructID = []\<rparr>"
      "''dev''" envDown "collector0\<lparr>cachedDeviceID := ''dev''\<rparr>" 5 "[]" world0]
    empty_structId_asymmetry [of "\<lparr>ID = ''1'', Name = ''a'', Enabled = True, StructID = ''0''\<rparr>"
      "''dev''" envDown "collector0\<lparr>cachedDeviceID := ''dev''\<rparr>" 5 "[]" world0]
    empty_structId_asymmetry [of "\<lparr>ID = ''1'', Name = ''a'', Enabled = True, StructID = ''s7''\<rparr>"
      "''dev''" envDown "collector0\<lparr>cachedDeviceID := ''dev''\<rparr>" 5 "[]" world0]
  by (simp add: run_defs resolver_defs example_defs trafficPoints_def zeroKeys_def
      zeroTrafficData_def Unix_def)

lemma effects_extends: "effects n s s1 \<Longrightarrow> \<exists>evs. trace s1 = trace s @ evs"
  by (auto simp: effects_def)

lemma tryGetData_trace:
  "tryGetData e w a d s = (b, s1) \<Longrightarrow>
     trace s1 = trace s @ [DoRequest ''GET'' trafficPath
                             [(''type'', ''mins''), (''app_id'', a), (''device_id'', d),
                              tsParam \<lparr>unixNano = env_clock e (tick s), loc = Local\<rparr>]]"
  by (auto simp: tryGetData_def now_def doRequest_def split: prod.splits option.splits)

text \<open>The probing strategies start with a probe of the candidate itself.\<close>

lemma probeChain_probes:
  assumes "probeChain e w a d s = (r, w1, s1)"
  shows "\<exists>evs. trace s1 =
           trace s @ DoRequest ''GET'' trafficPath
                       [(''type'', ''mins''), (''app_id'', a), (''device_id'', d),
                        tsParam \<lparr>unixNano = env_clock e (tick s), loc = Local\<rparr>] # evs"
proof -
  obtain b s2 where t: "tryGetData e w a d s = (b, s2)" by (cases "tryGetData e w a d s")
  have "effects 0 s2 s1"
    using assms t unfolding probeChain_def
    by (auto simp: effects_refl split: prod.splits option.splits bool.splits
        dest!: effects_tryStructID effects_tryRealDeviceID effects_tryTopology effects_trySerial)
       (meson effects_trans0)+
  then obtain evs where "trace s1 = trace s2 @ evs" using effects_extends by blast
  then show ?thesis using tryGetData_trace [OF t] by simp
qed

text \<open>
  C2 (corrected). For every candidate device id among the empty string, \<open>"0"\<close> and
  \<open>"auto"\<close>: when the primary device identifier is available (cached, or fetched and not
  empty), the resolver returns it at strategy 1: its result is that of \<open>getDeviceID\<close>, the
  only request it may make is the fetch of the identifier, and it never calls \<open>tryGetData\<close>.
  When the identifier is not available (\<open>getDeviceID\<close> returns the empty string), the
  resolver falls through to the probing strategies: its result is that of the strategies
  run after the failed fetch, and the first thing it does then is to call \<open>tryGetData\<close> on
  the candidate.
\<close>

theorem resolver_short_circuit:
  assumes "cand = [] \<or> cand = ''0'' \<or> cand = ''auto''"
  shows "(fst (getDeviceID e w s) \<noteq> [] \<longrightarrow>
            findWorkingDeviceID e w appID cand s = getDeviceID e w s
            \<and> trace (snd (snd (findWorkingDeviceID e w appID cand s))) =
                (if cachedDeviceID w \<noteq> [] then trace s
                 else trace s @ [DoRequest ''GET'' ''/api/v1/device/name/''
                                   [tsParam (fst (now e s))]])
            \<and> \<not> list_ex isProbe
                  (drop (length (trace s))
                     (trace (snd (snd (findWorkingDeviceID e w appID cand s))))))
     \<and> (fst (getDeviceID e w s) = [] \<longrightarrow>
            findWorkingDeviceID e w appID cand s =
              probeChain e (fst (snd (getDeviceID e w s))) appID cand
                (snd (snd (getDeviceID e w s)))
            \<and> (\<exists>evs. trace (snd (snd (findWorkingDeviceID e w appID cand s))) =
                   trace s
                   @ DoRequest ''GET'' ''/api/v1/device/name/'' [tsParam (fst (now e s))]
                   # DoRequest ''GET'' ''/api/v1/logs/traffic/''
                       [(''type'', ''mins''), (''app_id'', appID), (''device_id'', cand),
                        tsParam \<lparr>unixNano = env_clock e (tick s + 2), loc = Local\<rparr>]
                   # evs)
            \<and> list_ex isProbe
                 (drop (length (trace s))
                    (trace (snd (snd (findWorkingDeviceID e w appID cand s))))))"
proof (intro conjI impI)
  assume a: "fst (getDeviceID e w s) \<noteq> []"
  have eq: "findWorkingDeviceID e w appID cand s = getDeviceID e w s"
    using assms a by (auto simp: findWorkingDeviceID_def split: prod.splits)
  have tr: "trace (snd (snd (getDeviceID e w s))) =
          (if cachedDeviceID w \<noteq> [] then trace s
           else trace s @ [DoRequest ''GET'' ''/api/v1/device/name/'' [tsParam (fst (now e s))]])"
    by (auto simp: getDeviceID_def now_def doRequest_def split: prod.splits option.splits)
  show "findWorkingDeviceID e w appID cand s = getDeviceID e w s" by (rule eq)
  show "trace (snd (snd (findWorkingDeviceID e w appID cand s))) =
          (if cachedDeviceID w \<noteq> [] then trace s
           else trace s @ [DoRequest ''GET'' ''/api/v1/device/name/'' [tsParam (fst (now e s))]])"
    unfolding eq by (rule tr)
  show "\<not> list_ex isProbe
          (drop (length (trace s)) (trace (snd (snd (findWorkingDeviceID e w appID cand s)))))"
    unfolding eq tr by (simp add: trafficPath_def)
next
  assume a: "fst (getDeviceID e w s) = []"
  obtain i wa sa where g: "getDeviceID e w s = (i, wa, sa)" by (cases "getDeviceID e w s")
  have i: "i = []" using a g by simp
  have c: "cachedDeviceID w = []" using g i by (auto simp: getDeviceID_def split: if_splits)
  have sa: "trace sa = trace s @ [DoRequest ''GET'' ''/api/v1/device/name/'' [tsParam (fst (now e s))]]"
    "tick sa = tick s + 2"
    using g c by (auto simp: getDeviceID_def now_def doRequest_def split: prod.splits option.splits)
  show eq: "findWorkingDeviceID e w appID cand s =
              probeChain e (fst (snd (getDeviceID e w s))) appID cand
                (snd (snd (getDeviceID e w s)))"
    using assms g i by (auto simp: findWorkingDeviceID_def)
  obtain r wb sb where p: "probeChain e wa appID cand sa = (r, wb, sb)"
    by (cases "probeChain e wa appID cand sa")
  from probeChain_probes [OF p] obtain evs where
    ev: "trace sb = trace sa @ DoRequest ''GET'' trafficPath
                       [(''type'', ''mins''), (''app_id'', appID), (''device_id'', cand),
                        tsParam \<lparr>unixNano = env_clock e (tick sa), loc = Local\<rparr>] # evs"
    by blast
  have f: "snd (snd (findWorkingDeviceID e w appID cand s)) = sb" using eq g p by simp
  show "\<exists>evs. trace (snd (snd (findWorkingDeviceID e w appID cand s))) =
                   trace s
                   @ DoRequest ''GET'' ''/api/v1/device/name/'' [tsParam (fst (now e s))]
                   # DoRequest ''GET'' ''/api/v1/logs/traffic/''
                       [(''type'', ''mins''), (''app_id'', appID), (''device_id'', cand),
                        tsParam \<lparr>unixNano = env_clock e (tick s + 2), loc = Local\<rparr>]
                   # evs"
    unfolding f using ev sa by (simp add: trafficPath_def)
  show "list_ex isProbe
          (drop (length (trace s)) (trace (snd (snd (findWorkingDeviceID e w appID cand s)))))"
    unfolding f using ev sa by (simp add: trafficPath_def)
qed

theorem resolver_short_circuit_witness:
  "findWorkingDeviceID (envUp [] Written Delivered) collector0 ''1'' ''0'' world0 =
     (''dev'', collector0\<lparr>cachedDeviceID := ''dev''\<rparr>,
      \<lparr>tick = 2, files = Map.empty,
       trace = [DoRequest ''GET'' ''/api/v1/device/name/''
                  [tsParam \<lparr>unixNano = 1700000000000000000, loc = Local\<rparr>]]\<rparr>)
   \<and> findWorkingDeviceID envDown collector0 ''1'' ''auto'' world0 =
       probeChain envDown collector0 ''1'' ''auto''
         \<lparr>tick = 2, files = Map.empty,
          trace = [DoRequest ''GET'' ''/api/v1/device/name/''
                     [tsParam \<lparr>unixNano = 1700000000000000000, loc = Local\<rparr>]]\<rparr>
   \<and> take 2 (trace (snd (snd (findWorkingDeviceID envDown collector0 ''1'' ''auto'' world0)))) =
       [DoRequest ''GET'' ''/api/v1/device/name/''
          [tsParam \<lparr>unixNano = 1700000000000000000, loc = Local\<rparr>],
        DoRequest ''GET'' ''/api/v1/logs/traffic/''
          [(''type'', ''mins''), (''app_id'', ''1''), (''device_id'', ''auto''),
           tsParam \<lparr>unixNano = 1700000000000000002, loc = Local\<rparr>]]"
proof -
  have a: "getDeviceID (envUp [] Written Delivered) collector0 world0 =
     (''dev'', collector0\<lparr>cachedDeviceID := ''dev''\<rparr>,
      \<lparr>tick = 2, files = Map.empty,
       trace = [DoRequest ''GET'' ''/api/v1/device/name/''
                  [tsParam \<lparr>unixNano = 1700000000000000000, loc = Local\<rparr>]]\<rparr>)"
    by (simp add: run_defs resolver_defs example_defs)
  have b: "getDeviceID envDown collector0 world0 =
     ([], collector0,
      \<lparr>tick = 2, files = Map.empty,
       trace = [DoRequest ''GET'' ''/api/v1/device/name/''
                  [tsParam \<lparr>unixNano = 1700000000000000000, loc = Local\<rparr>]]\<rparr>)"
    by (simp add: run_defs resolver_defs example_defs)
  show ?thesis
    using resolver_short_circuit [of "''0''" "envUp [] Written Delivered" collector0 world0 "''1''"]
      resolver_short_circuit [of "''auto''" envDown collector0 world0 "''1''"]
    unfolding a b
    by (auto simp: now_def envDown_fields world0_def)
qed

text \<open>
  The claim as stated fails: with candidate \<open>"0"\<close> and an appliance that does not answer,
  the fetch of the primary identifier fails, the resolver goes on to probe, and it
  returns the candidate itself.
\<close>

theorem resolver_short_circuit_counterexample:
  "fst (findWorkingDeviceID envDown collector0 ''1'' ''0'' world0) = ''0''
   \<and> list_ex isProbe (trace (snd (snd (findWorkingDeviceID envDown collector0 ''1'' ''0'' world0))))"
  by (simp add: resolver_defs example_defs trafficPath_def)





lemma windowStart_clip:
  "unixNano (windowStart dt (Some lrt) en) = max (unixNano lrt) (unixNano en - ceilingSpec dt)"
  by (auto simp: windowStart_def Let_def durationOf_def maxRanges_def ceilingSpec_def Hour_def
      Add_def Before_def)

lemma windowStart_clipped:
  "unixNano lrt < unixNano en - ceilingSpec dt \<Longrightarrow>
     windowStart dt (Some lrt) en = Add en (- ceilingSpec dt)"
  unfolding windowStart_def Let_def durationOf_def maxRanges_def ceilingSpec_def Hour_def
    Add_def Before_def
  by (auto split: if_splits)

lemma getLastRunTime_files:
  "files s' = files s \<Longrightarrow> lastRunFile w' = lastRunFile w \<Longrightarrow>
     fst (getLastRunTime e w' s') = fst (getLastRunTime e w s)"
  by (simp add: getLastRunTime_def Let_def split: option.splits)

text \<open>
  C3. When prior state is present (the state file parses to \<open>lrt\<close>), the query window of
  \<open>getTrafficData\<close> ends at the clock read after the device id is resolved, and starts at
  \<open>lrt\<close> or, if that is longer ago than the ceiling of the granularity (mins 24h, hours 7d,
  days 30d, anything else 24h), at the end minus the ceiling; so the window is never longer
  than the ceiling. For granularity hours and a stored time more than 7 days old (10 days,
  say) the start is the end minus 7 days.
\<close>

theorem window_clipping:
  assumes "trafficQuery e w appID dev s = ((resp, startTime, endTime), w1, s1)"
    and "fst (getLastRunTime e w s) = Some lrt"
  shows "endTime = fst (now e (snd (snd (findWorkingDeviceID e w appID dev s))))
     \<and> unixNano startTime = max (unixNano lrt) (unixNano endTime - ceilingSpec (dataType w))
     \<and> unixNano endTime - unixNano startTime \<le> ceilingSpec (dataType w)
     \<and> (dataType w = ''hours'' \<and> unixNano lrt < unixNano endTime - 7 * 24 * Hour \<longrightarrow>
          startTime = Add endTime (- (7 * 24 * Hour)))"
proof -
  obtain i wa sa where f: "findWorkingDeviceID e w appID dev s = (i, wa, sa)"
    by (cases "findWorkingDeviceID e w appID dev s")
  obtain t sb where n: "now e sa = (t, sb)" by (cases "now e sa")
  obtain l sc where g: "getLastRunTime e wa sb = (l, sc)" by (cases "getLastRunTime e wa sb")
  have fs: "files sb = files s"
    using effects_findWorkingDeviceID [OF f] effects_now [OF n] by (simp add: effects_def)
  note fw = onlyDeviceID_fields [OF only_findWorkingDeviceID [OF f]]
  have "fst (getLastRunTime e wa sb) = fst (getLastRunTime e w s)"
    using fs fw(1) by (rule getLastRunTime_files)
  with g assms(2) have l: "l = Some lrt" by simp
  from assms(1) f n g l have en: "endTime = t" and st: "startTime = windowStart (dataType w) (Some lrt) t"
    by (auto simp: trafficQuery_def Let_def fw split: prod.splits)
  show ?thesis
    using en st f n windowStart_clip [of "dataType w" lrt t]
      windowStart_clipped [of lrt t "dataType w"]
    by (auto simp: ceilingSpec_def)
qed

lemma parse_example:
  "Parse (env_local envDown) RFC3339 ''2023-11-04T22:13:20Z''
     = Some \<lparr>unixNano = 1699136000000000000, loc = UTC\<rparr>"
  by code_simp

theorem window_clipping_witness:
  "snd (fst (trafficQuery envDown collectorHours ''1'' ''0'' (worldAt ''2023-11-04T22:13:20Z'')))
     = (\<lparr>unixNano = 1699395200000000000, loc = Local\<rparr>,
        \<lparr>unixNano = 1700000000000000000, loc = Local\<rparr>)"
proof -
  obtain resp st en w1 s1 where
    q: "trafficQuery envDown collectorHours ''1'' ''0'' (worldAt ''2023-11-04T22:13:20Z'')
          = ((resp, st, en), w1, s1)"
    by (metis prod_cases3)
  have l: "fst (getLastRunTime envDown collectorHours (worldAt ''2023-11-04T22:13:20Z''))
             = Some \<lparr>unixNano = 1699136000000000000, loc = UTC\<rparr>"
    by (simp add: getLastRunTime_def collectorHours_def NewWAFCollector_def worldAt_def
        marshalLastRunInfo_def decodeLastRunInfo_def stringField_def jget_def Let_def
        parseLastRunTime_def parse_example)
  show ?thesis
    using window_clipping [OF q l] q
    by (simp add: resolver_defs example_defs collectorHours_def worldAt_def Hour_def Add_def)
qed

text \<open>\<open>sendToZabbix\<close> returns true exactly when it has data and the sender delivers it.\<close>

lemma sendToZabbix_delivered:
  "fst (sendToZabbix e w batch s) =
     (batch \<noteq> [] \<and> env_sink e (tick s) (zabbixServer w) (concat (map (encodeLine e) batch))
                      = Delivered)"
  by (simp add: sendToZabbix_def Let_def split: sink_outcome.splits)

lemma sendToZabbix_world:
  "fst (sendToZabbix e w batch s) \<Longrightarrow>
     snd (sendToZabbix e w batch s) =
       s\<lparr>tick := tick s + 1,
         trace := trace s @ [SenderRun (zabbixServer w) (concat (map (encodeLine e) batch))]\<rparr>"
  by (simp add: sendToZabbix_def Let_def split: sink_outcome.splits if_splits)

text \<open>
  C1 (corrected). The state file is advanced only after the sink confirms delivery.
  \<open>run\<close> returns true exactly when the collected batch is not empty and the sender
  (\<open>zabbix_sender\<close>, run on that batch) delivers it. When it returns false (the sink
  delivery failed, or the run aborted before it), no file changed and no write was
  attempted. When the delivery succeeded, the write of the state file is the one thing the
  run does after the sender; and when that write succeeds, the state file holds the time
  read at the start of the run, in RFC3339 form with second precision, with the
  granularity and the host of the collector, and no other file changed.
\<close>

theorem state_advanced_after_delivery:
  assumes "run e w s = (ok, w1, s1)"
    and "collectAllData e w (snd (now e s)) = (batch, wa, sb)"
  shows "ok = (batch \<noteq> []
               \<and> env_sink e (tick sb) (zabbixServer wa) (concat (map (encodeLine e) batch))
                   = Delivered)
     \<and> (\<not> ok \<longrightarrow>
            files s1 = files s
            \<and> \<not> list_ex isFileWrite (drop (length (trace s)) (trace s1)))
     \<and> (ok \<longrightarrow>
            trace s1 =
              trace sb
              @ [SenderRun (zabbixServer wa) (concat (map (encodeLine e) batch)),
                 FileWrite (lastRunFile w)
                   (marshalLastRunInfo
                      \<lparr>LastRunTime =
                         Format (env_local e) RFC3339
                           \<lparr>unixNano = env_clock e (tick s), loc = Local\<rparr>,
                       DataType = dataType w, ZabbixHost = zabbixHost w\<rparr>)]
            \<and> \<not> list_ex isFileWrite (drop (length (trace s)) (trace sb)))
     \<and> (ok \<and> env_write e (tick s1 - 1) = Written \<longrightarrow>
          files s1 = (files s)(lastRunFile w \<mapsto>
            marshalLastRunInfo
              \<lparr>LastRunTime =
                 Format (env_local e) RFC3339 \<lparr>unixNano = env_clock e (tick s), loc = Local\<rparr>,
               DataType = dataType w, ZabbixHost = zabbixHost w\<rparr>))"
proof -
  obtain t sa where n: "now e s = (t, sa)" by (cases "now e s")
  have t: "t = \<lparr>unixNano = env_clock e (tick s), loc = Local\<rparr>" using n by (auto simp: now_def)
  have c: "collectAllData e w sa = (batch, wa, sb)" using assms(2) n by simp
  from collectAllData_frame [OF c] obtain k where
    fr: "lastRunFile wa = lastRunFile w" "dataType wa = dataType w" "zabbixHost wa = zabbixHost w"
    and ek: "effects k sa sb"
    by auto
  have e1: "effects k s sb" using effects_now [OF n] ek by (rule effects_trans0)
  have ok: "ok = fst (sendToZabbix e wa batch sb)"
    using assms(1) n c by (auto simp: run_def sendToZabbix_def split: prod.splits bool.splits)
  show ?thesis
  proof (cases ok)
    case False
    obtain b sc where z: "sendToZabbix e wa batch sb = (b, sc)"
      by (cases "sendToZabbix e wa batch sb")
    have "s1 = sendCollectorStatus e wa 0 sb \<or> s1 = sendCollectorStatus e wa 0 sc"
      using assms(1) n c z False by (auto simp: run_def split: if_splits bool.splits)
    moreover have "effects k s sc" using e1 effects_sendToZabbix [OF z] by (rule effects_trans0')
    ultimately have "effects k s s1"
      using e1 effects_sendCollectorStatus by (metis effects_trans0')
    then show ?thesis
      using False ok by (auto simp: effects_def sendToZabbix_delivered)
  next
    case True
    then have d: "fst (sendToZabbix e wa batch sb)" using ok by simp
    have b: "batch \<noteq> []" using d by (simp add: sendToZabbix_delivered)
    have "s1 = saveLastRunTime e wa t (snd (sendToZabbix e wa batch sb))"
      using assms(1) n c d b by (auto simp: run_def split: prod.splits bool.splits)
    then have s1: "s1 = saveLastRunTime e wa t
                     (sb\<lparr>tick := tick sb + 1,
                        trace := trace sb @ [SenderRun (zabbixServer wa)
                                               (concat (map (encodeLine e) batch))]\<rparr>)"
      using sendToZabbix_world [OF d] by simp
    have fs: "files sb = files s" "\<not> list_ex isFileWrite (drop (length (trace s)) (trace sb))"
      using e1 by (auto simp: effects_def)
    show ?thesis
      using True ok d fs fr unfolding s1 t
      by (auto simp: saveLastRunTime_def Let_def lastRunInfoOf_def sendToZabbix_delivered
          split: write_outcome.splits)
  qed
qed

theorem state_advanced_after_delivery_witness:
  "fst (run (envUp [siteJSON ''1'' ''a'' False ''0''] Written Delivered) collector0 world0) = True
   \<and> files (snd (snd (run (envUp [siteJSON ''1'' ''a'' False ''0''] Written Delivered)
                        collector0 world0)))
     = [''/tmp/waf_sender_last_run_host.json'' \<mapsto>
          marshalLastRunInfo
            \<lparr>LastRunTime = ''2023-11-14T22:13:20Z'', DataType = ''mins'', ZabbixHost = ''host''\<rparr>]
   \<and> fst (run (envUp [siteJSON ''1'' ''a'' False ''0''] Written SenderFailed) collector0 world0)
       = False
   \<and> files (snd (snd (run (envUp [siteJSON ''1'' ''a'' False ''0''] Written SenderFailed)
                        collector0 world0)))
     = Map.empty"
proof -
  let ?e = "envUp [siteJSON ''1'' ''a'' False ''0''] Written Delivered"
  let ?f = "envUp [siteJSON ''1'' ''a'' False ''0''] Written SenderFailed"
  obtain ok w1 s1 where r: "run ?e collector0 world0 = (ok, w1, s1)" by (metis prod_cases3)
  obtain ok' w1' s1' where r': "run ?f collector0 world0 = (ok', w1', s1')" by (metis prod_cases3)
  obtain batch wa sb where c: "collectAllData ?e collector0 (snd (now ?e world0)) = (batch, wa, sb)"
    by (metis prod_cases3)
  obtain batch' wa' sb' where
    c': "collectAllData ?f collector0 (snd (now ?f world0)) = (batch', wa', sb')"
    by (metis prod_cases3)
  have b: "batch \<noteq> []" "batch' \<noteq> []"
    using c c' by (auto simp: run_defs resolver_defs example_defs)
  have v: "tick s1 = 9"
    using r by (auto simp: run_defs resolver_defs example_defs)
  have f: "Format (env_local ?e) RFC3339 \<lparr>unixNano = env_clock ?e (tick world0), loc = Local\<rparr>
             = ''2023-11-14T22:13:20Z''"
    using format_example by (simp add: envUp_def world0_def)
  show ?thesis
    using state_advanced_after_delivery [OF r c] state_advanced_after_delivery [OF r' c']
      r r' b v f
    by (simp add: envUp_fields collector0_def NewWAFCollector_def world0_def)
qed

text \<open>
  The claim as stated fails when the write of the state file fails: the delivery
  succeeded and \<open>run\<close> returns true, but the state file was not set.
\<close>

theorem state_advanced_after_delivery_counterexample:
  "fst (run (envUp [siteJSON ''1'' ''a'' False ''0''] (WriteError None) Delivered)
          collector0 world0) = True
   \<and> files (snd (snd (run (envUp [siteJSON ''1'' ''a'' False ''0''] (WriteError None) Delivered)
                        collector0 world0)))
        (lastRunFile collector0) = None"
  by (simp add: run_defs resolver_defs example_defs)

text \<open>
  C8 (corrected). During a single run of a fresh collector the state file is read once per
  enabled site (inside each \<open>getTrafficData\<close>; not at all when the run aborts before the
  loop over the sites or when no site is enabled), and it is written at most once: exactly
  when the run succeeds, as the last action of the run, so never between two reads.
\<close>

theorem state_file_access_per_run:
  assumes "cachedSites w = []" and "run e w s = (ok, w1, s1)"
  shows "\<exists>evs. trace s1 = trace s @ evs
           \<and> length (filter isFileRead evs) = length (filter Enabled (cachedSites w1))
           \<and> length (filter isFileWrite evs) = (if ok then 1 else 0)
           \<and> (ok \<longrightarrow> isFileWrite (last evs))"
  using assms(2)
proof (cases rule: run_cases)
  case (fail s2 n)
  then show ?thesis using assms(1) by (auto simp: effects_def list_ex_iff filter_empty_conv)
next
  case (success s2 n)
  from success(2) obtain evs where
    ev: "trace s2 = trace s @ evs" "\<not> list_ex isFileWrite evs" "length (filter isFileRead evs) = n"
    by (auto simp: effects_def)
  obtain d where t: "trace s1 = trace s2 @ [FileWrite (lastRunFile w1) d]"
    using success(3) by (auto simp: saveLastRunTime_def Let_def split: write_outcome.splits)
  have "filter isFileWrite evs = []" using ev(2) by (auto simp: list_ex_iff filter_empty_conv)
  then show ?thesis
    using ev t success(1,4) assms(1)
    by (intro exI [of _ "evs @ [FileWrite (lastRunFile w1) d]"]) simp
qed

theorem state_file_access_per_run_witness:
  "\<exists>evs. trace (snd (snd (run (envUp [siteJSON ''1'' ''a'' True ''0'', siteJSON ''2'' ''b'' True ''0'',
                                      siteJSON ''3'' ''c'' False ''0''] Written Delivered)
                              collector0 world0))) = evs
         \<and> length (filter isFileRead evs) = 2
         \<and> length (filter isFileWrite evs) = 1
         \<and> isFileWrite (last evs)"
proof -
  let ?e = "envUp [siteJSON ''1'' ''a'' True ''0'', siteJSON ''2'' ''b'' True ''0'',
                   siteJSON ''3'' ''c'' False ''0''] Written Delivered"
  obtain ok w1 s1 where r: "run ?e collector0 world0 = (ok, w1, s1)" by (metis prod_cases3)
  have c: "cachedSites collector0 = []" by (simp add: collector0_def NewWAFCollector_def)
  have v: "ok" "length (filter Enabled (cachedSites w1)) = 2"
    using r by (auto simp: run_defs resolver_defs example_defs)
  show ?thesis
    using state_file_access_per_run [OF c r] r v by (simp add: world0_def)
qed

text \<open>
  The claim as stated fails with two enabled sites: the state file is read twice in one
  run, not once at its start.
\<close>

theorem state_file_access_per_run_counterexample:
  "length (filter isFileRead
     (trace (snd (snd (run (envUp [siteJSON ''1'' ''a'' True ''0'', siteJSON ''2'' ''b'' True ''0'']
                              Written Delivered)
                        collector0 world0))))) = 2"
  by (simp add: run_defs resolver_defs example_defs)

text \<open>The state file that \<open>saveLastRunTime\<close> wrote is read back as the record it held.\<close>

lemma decode_marshal: "decodeLastRunInfo (marshalLastRunInfo info) = Some info"
  by (simp add: decodeLastRunInfo_def marshalLastRunInfo_def stringField_def jget_def)

lemma load_after_save:
  assumes "env_write e (tick s) = Written"
  shows "fst (getLastRunTime e w (saveLastRunTime e w t s))
           = parseLastRunTime (env_local e) (Format (env_local e) RFC3339 t)"
  using assms
  by (simp add: getLastRunTime_def saveLastRunTime_def Let_def decode_marshal lastRunInfoOf_def)

text \<open>An example time, an hour east of UTC, and what the four layouts write and read.\<close>

lemma civil_example:
  "civilOf (\<lambda>u. 3600) \<lparr>unixNano = 1700000000000005789, loc = Local\<rparr>
     = \<lparr>cYear = 2023, cMonth = 11, cDay = 14, cHour = 23, cMin = 13, cSec = 20,
        cNsec = 5789, cOffset = 3600\<rparr>"
  by code_simp

lemma appendNano_example: "appendNano 5789 6 = ''.000005''"
proof -
  have r: "replicate 5 c = [c, c, c, c, c]" for c :: char
    by (simp add: numeral_eq_Suc)
  have a: "appendInt 5789 9 = ''000005789''"
    by (simp add: appendInt_def digitsOf_4 digit_eval r)
  have t: "take 6 ''000005789'' = ''000005''"
    by (simp add: take_Cons')
  show ?thesis
    by (simp add: appendNano_def a t trimZeros_def)
qed

lemma format_examples:
  "Format (\<lambda>u. 3600) RFC3339 \<lparr>unixNano = 1700000000000005789, loc = Local\<rparr>
     = ''2023-11-14T23:13:20+01:00''"
  "Format (\<lambda>u. 3600) layoutISOMicro \<lparr>unixNano = 1700000000000005789, loc = Local\<rparr>
     = ''2023-11-14T23:13:20.000005''"
  "Format (\<lambda>u. 3600) layoutISO \<lparr>unixNano = 1700000000000005789, loc = Local\<rparr>
     = ''2023-11-14T23:13:20''"
  "Format (\<lambda>u. 3600) layoutPlain \<lparr>unixNano = 1700000000000005789, loc = Local\<rparr>
     = ''2023-11-14 23:13:20''"
proof -
  have d: "digit (Suc 0) = CHR ''1''" using digit_eval(2) by simp
  have q: "quot 3600 3600 = 1" "quot 3600 60 = 60" by (simp_all add: quot_def)
  show "Format (\<lambda>u. 3600) RFC3339 \<lparr>unixNano = 1700000000000005789, loc = Local\<rparr>
     = ''2023-11-14T23:13:20+01:00''"
    by (simp add: Format_def civil_example formatCivil_def RFC3339_def appendInt_2 appendInt_4
        digit_eval d q Let_def)
  show "Format (\<lambda>u. 3600) layoutISOMicro \<lparr>unixNano = 1700000000000005789, loc = Local\<rparr>
     = ''2023-11-14T23:13:20.000005''"
    by (simp add: Format_def civil_example formatCivil_def layoutISOMicro_def appendNano_example
        appendInt_2 appendInt_4 digit_eval d)
  show "Format (\<lambda>u. 3600) layoutISO \<lparr>unixNano = 1700000000000005789, loc = Local\<rparr>
     = ''2023-11-14T23:13:20''"
    by (simp add: Format_def civil_example formatCivil_def layoutISO_def
        appendInt_2 appendInt_4 digit_eval d)
  show "Format (\<lambda>u. 3600) layoutPlain \<lparr>unixNano = 1700000000000005789, loc = Local\<rparr>
     = ''2023-11-14 23:13:20''"
    by (simp add: Format_def civil_example formatCivil_def layoutPlain_def
        appendInt_2 appendInt_4 digit_eval d)
qed

lemma parse_examples:
  "Parse (\<lambda>u. 3600) RFC3339 ''2023-11-14T23:13:20+01:00''
     = Some \<lparr>unixNano = 1700000000000000000, loc = Local\<rparr>"
  "Parse (\<lambda>u. 3600) layoutISOMicro ''2023-11-14T23:13:20.000005''
     = Some \<lparr>unixNano = 1700003600000005000, loc = UTC\<rparr>"
  "Parse (\<lambda>u. 3600) layoutISO ''2023-11-14T23:13:20''
     = Some \<lparr>unixNano = 1700003600000000000, loc = UTC\<rparr>"
  "Parse (\<lambda>u. 3600) layoutPlain ''2023-11-14 23:13:20''
     = Some \<lparr>unixNano = 1700003600000000000, loc = UTC\<rparr>"
  by code_simp+

text \<open>
  C4. State-timestamp round trip and legacy formats. Let \<open>t\<close> be a time whose wall clock
  lies in the years 0 to 9999, with a zone offset of less than a day (the times that
  RFC3339 writes with a four-digit year). Saving the state with \<open>t\<close> as run-start time,
  the write succeeding, and then loading it returns what the first layout, RFC3339, parses
  from the string written, and that parse succeeds: it reads back the date and the time
  of day of \<open>t\<close> and its zone offset in whole minutes. Each of the other three layouts
  (fractional seconds, whole seconds, and date and time separated by a space) parses what
  it has written, reading back the date and the time of day of \<open>t\<close> (and its
  microseconds, for the first of them) as a time in UTC; and the chain of
  \<open>getLastRunTime\<close>, trying the four layouts in their order, returns exactly that result
  for such a string: RFC3339 rejects all three, and the two layouts with \<open>T\<close> reject the
  string with the space (a whole-second string is accepted by the fractional-second
  layout already, with the result of the whole-second layout).
\<close>

theorem state_timestamp_round_trip:
  assumes "validTime (env_local e) t"
  shows "(env_write e (tick s) = Written \<longrightarrow>
            fst (getLastRunTime e w (saveLastRunTime e w t s))
              = Parse (env_local e) RFC3339 (Format (env_local e) RFC3339 t))
     \<and> Parse (env_local e) RFC3339 (Format (env_local e) RFC3339 t)
         = Some (timeOf (env_local e)
                   (civilFields (civilOf (env_local e) t) 0 (zoneOffsetOf (env_local e) t = 0)
                      (if zoneOffsetOf (env_local e) t = 0 then - 1
                       else quot (zoneOffsetOf (env_local e) t) 60 * 60)))
     \<and> Parse (env_local e) layoutISOMicro (Format (env_local e) layoutISOMicro t)
         = Some (timeOf (env_local e)
                   (civilFields (civilOf (env_local e) t)
                      (unixNano t mod 1000000000 div 1000 * 1000) False (- 1)))
     \<and> parseLastRunTime (env_local e) (Format (env_local e) layoutISOMicro t)
         = Parse (env_local e) layoutISOMicro (Format (env_local e) layoutISOMicro t)
     \<and> Parse (env_local e) layoutISO (Format (env_local e) layoutISO t)
         = Some (timeOf (env_local e) (civilFields (civilOf (env_local e) t) 0 False (- 1)))
     \<and> parseLastRunTime (env_local e) (Format (env_local e) layoutISO t)
         = Parse (env_local e) layoutISO (Format (env_local e) layoutISO t)
     \<and> Parse (env_local e) layoutPlain (Format (env_local e) layoutPlain t)
         = Some (timeOf (env_local e) (civilFields (civilOf (env_local e) t) 0 False (- 1)))
     \<and> parseLastRunTime (env_local e) (Format (env_local e) layoutPlain t)
         = Parse (env_local e) layoutPlain (Format (env_local e) layoutPlain t)
     \<and> Parse (env_local e) RFC3339 (Format (env_local e) layoutISOMicro t) = None
     \<and> Parse (env_local e) RFC3339 (Format (env_local e) layoutISO t) = None
     \<and> Parse (env_local e) layoutISOMicro (Format (env_local e) layoutISO t)
         = Parse (env_local e) layoutISO (Format (env_local e) layoutISO t)
     \<and> Parse (env_local e) RFC3339 (Format (env_local e) layoutPlain t) = None
     \<and> Parse (env_local e) layoutISOMicro (Format (env_local e) layoutPlain t) = None
     \<and> Parse (env_local e) layoutISO (Format (env_local e) layoutPlain t) = None"
proof -
  note r = Parse_Format_RFC3339 [OF assms]
  note m = Parse_Format_ISOMicro [OF assms]
  note i = Parse_Format_ISO [OF assms]
  note p = Parse_Format_Plain [OF assms]
  note f = Parse_earlier_fails [OF assms]
  have 1: "env_write e (tick s) = Written \<longrightarrow>
            fst (getLastRunTime e w (saveLastRunTime e w t s))
              = Parse (env_local e) RFC3339 (Format (env_local e) RFC3339 t)"
    using load_after_save [of e s w t] by (simp add: parseLastRunTime_def r)
  have 2: "parseLastRunTime (env_local e) (Format (env_local e) layoutISOMicro t)
         = Parse (env_local e) layoutISOMicro (Format (env_local e) layoutISOMicro t)"
    by (simp add: parseLastRunTime_def f(1) m)
  have 3: "parseLastRunTime (env_local e) (Format (env_local e) layoutISO t)
         = Parse (env_local e) layoutISO (Format (env_local e) layoutISO t)"
    by (simp add: parseLastRunTime_def f(2) i)
  have 4: "parseLastRunTime (env_local e) (Format (env_local e) layoutPlain t)
         = Parse (env_local e) layoutPlain (Format (env_local e) layoutPlain t)"
    by (simp add: parseLastRunTime_def f(3,4,5) p)
  show ?thesis
    using 1 2 3 4 r m i p f by (simp add: cNsec_civilOf)
qed

theorem state_timestamp_round_trip_witness:
  "fst (getLastRunTime (envDown\<lparr>env_local := \<lambda>u. 3600\<rparr>) collector0
          (saveLastRunTime (envDown\<lparr>env_local := \<lambda>u. 3600\<rparr>) collector0
             \<lparr>unixNano = 1700000000000005789, loc = Local\<rparr> world0))
     = Some \<lparr>unixNano = 1700000000000000000, loc = Local\<rparr>
   \<and> parseLastRunTime (\<lambda>u. 3600) ''2023-11-14T23:13:20.000005''
       = Some \<lparr>unixNano = 1700003600000005000, loc = UTC\<rparr>
   \<and> parseLastRunTime (\<lambda>u. 3600) ''2023-11-14T23:13:20''
       = Some \<lparr>unixNano = 1700003600000000000, loc = UTC\<rparr>
   \<and> parseLastRunTime (\<lambda>u. 3600) ''2023-11-14 23:13:20''
       = Some \<lparr>unixNano = 1700003600000000000, loc = UTC\<rparr>"
proof -
  let ?e = "envDown\<lparr>env_local := \<lambda>u. 3600\<rparr>"
  let ?t = "\<lparr>unixNano = 1700000000000005789, loc = Local\<rparr>"
  have l: "env_local ?e = (\<lambda>u. 3600)" by simp
  have v: "validTime (env_local ?e) ?t"
    unfolding l by (simp add: validTime_def Unix_def zoneOffsetOf_def)
  have w: "env_write ?e (tick world0) = Written" by (simp add: envDown_fields)
  show ?thesis
    using state_timestamp_round_trip [OF v, of world0 collector0] w
    unfolding l format_examples parse_examples
    by simp
qed

end
